theory Spec2Isabelle
  imports Complex_Main
begin

section \<open>Python values used by the sizing scripts\<close>

text \<open>
  The two scripts \<^verbatim>\<open>Sizing/MongoDBSizing_CL.py\<close> and \<^verbatim>\<open>Sizing/MongoSizing.py\<close> share
  their parsing helpers and their input loop; they differ in the report they derive.

  A Python \<^verbatim>\<open>str\<close> is modelled as a \<open>string\<close> whose characters are the code points
  below 256. A Python \<^verbatim>\<open>float\<close> is modelled by \<open>pyfloat\<close>: the three special values
  are kept apart, since \<^verbatim>\<open>float("nan")\<close> and \<^verbatim>\<open>float("inf")\<close> are accepted by the builtin,
  and a result whose magnitude reaches \<open>float_overflow\<close> is infinite, as in binary64. A
  finite result carries its exact real value: the rounding of the mantissa (and with it
  gradual underflow) is not modelled, so statements about finite values are about the
  values up to that rounding. An exception that nothing catches ends the script: a function
  that can raise returns \<open>error + 'a\<close>, with \<open>Inl\<close> for the exception. The input file is the
  list of its lines, and a CSV file the list of the rows handed to the writer.
\<close>

datatype error = ValueError | ZeroDivisionError

datatype pyfloat = Fin real | PInf | NInf | NaN

text \<open>
  The least magnitude that binary64 rounds to infinity: half a unit in the last place
  above the largest finite value \<open>2 ^ 1024 - 2 ^ 971\<close>.
\<close>

definition float_overflow :: real where
  "float_overflow = 2 ^ 1024 - 2 ^ 970"

text \<open>The float that an operation with the exact result \<open>x\<close> returns.\<close>

definition to_float :: "real \<Rightarrow> pyfloat" where
  "to_float x =
     (if float_overflow \<le> x then PInf else if x \<le> - float_overflow then NInf else Fin x)"

fun fneg :: "pyfloat \<Rightarrow> pyfloat" where
  "fneg (Fin r) = Fin (- r)"
| "fneg PInf = NInf"
| "fneg NInf = PInf"
| "fneg NaN = NaN"

text \<open>\<^verbatim>\<open>a + b\<close> on floats.\<close>

fun fadd :: "pyfloat \<Rightarrow> pyfloat \<Rightarrow> pyfloat" where
  "fadd (Fin a) (Fin b) = to_float (a + b)"
| "fadd NaN _ = NaN"
| "fadd _ NaN = NaN"
| "fadd PInf NInf = NaN"
| "fadd NInf PInf = NaN"
| "fadd PInf _ = PInf"
| "fadd NInf _ = NInf"
| "fadd _ PInf = PInf"
| "fadd _ NInf = NInf"

text \<open>\<^verbatim>\<open>a * b\<close> on floats.\<close>

fun finf_signed :: "bool \<Rightarrow> pyfloat" where
  "finf_signed positive = (if positive then PInf else NInf)"

fun fmul :: "pyfloat \<Rightarrow> pyfloat \<Rightarrow> pyfloat" where
  "fmul (Fin a) (Fin b) = to_float (a * b)"
| "fmul NaN _ = NaN"
| "fmul _ NaN = NaN"
| "fmul (Fin a) PInf = (if a = 0 then NaN else finf_signed (0 < a))"
| "fmul (Fin a) NInf = (if a = 0 then NaN else finf_signed (a < 0))"
| "fmul PInf (Fin b) = (if b = 0 then NaN else finf_signed (0 < b))"
| "fmul NInf (Fin b) = (if b = 0 then NaN else finf_signed (b < 0))"
| "fmul PInf PInf = PInf"
| "fmul NInf NInf = PInf"
| "fmul PInf NInf = NInf"
| "fmul NInf PInf = NInf"

text \<open>\<^verbatim>\<open>a / b\<close> on floats: a zero divisor raises \<^verbatim>\<open>ZeroDivisionError\<close>.\<close>

fun fdiv :: "pyfloat \<Rightarrow> pyfloat \<Rightarrow> error + pyfloat" where
  "fdiv a (Fin b) =
     (if b = 0 then Inl ZeroDivisionError
      else case a of
          Fin x \<Rightarrow> Inr (to_float (x / b))
        | PInf \<Rightarrow> Inr (finf_signed (0 < b))
        | NInf \<Rightarrow> Inr (finf_signed (b < 0))
        | NaN \<Rightarrow> Inr NaN)"
| "fdiv NaN _ = Inr NaN"
| "fdiv _ NaN = Inr NaN"
| "fdiv (Fin a) _ = Inr (Fin 0)"
| "fdiv _ _ = Inr NaN"

text \<open>\<^verbatim>\<open>a >= b\<close> and \<^verbatim>\<open>a == b\<close> on floats: every comparison with NaN is false.\<close>

fun fge :: "pyfloat \<Rightarrow> pyfloat \<Rightarrow> bool" where
  "fge (Fin a) (Fin b) = (b \<le> a)"
| "fge NaN _ = False"
| "fge _ NaN = False"
| "fge PInf _ = True"
| "fge _ NInf = True"
| "fge _ _ = False"

fun feq :: "pyfloat \<Rightarrow> pyfloat \<Rightarrow> bool" where
  "feq (Fin a) (Fin b) = (a = b)"
| "feq PInf PInf = True"
| "feq NInf NInf = True"
| "feq _ _ = False"

text \<open>\<^verbatim>\<open>sum(...)\<close> starts from the integer 0 and adds from the left.\<close>

definition fsum :: "pyfloat list \<Rightarrow> pyfloat" where
  "fsum xs = foldl fadd (Fin 0) xs"

subsection \<open>Strings\<close>

text \<open>\<^verbatim>\<open>str.isspace\<close> on one character; also what \<^verbatim>\<open>\s\<close> matches.\<close>

definition isspace :: "char \<Rightarrow> bool" where
  "isspace c \<longleftrightarrow> c \<in> set [CHR 0x09, CHR 0x0A, CHR 0x0B, CHR 0x0C, CHR 0x0D,
     CHR 0x1C, CHR 0x1D, CHR 0x1E, CHR 0x1F, CHR 0x20, CHR 0x85, CHR 0xA0]"

text \<open>What \<^verbatim>\<open>\d\<close> matches below code point 256.\<close>

definition isdigit :: "char \<Rightarrow> bool" where
  "isdigit c \<longleftrightarrow> c \<in> set ''0123456789''"

text \<open>\<^verbatim>\<open>s.strip()\<close>.\<close>

definition strip :: "string \<Rightarrow> string" where
  "strip s = rev (dropWhile isspace (rev (dropWhile isspace s)))"

text \<open>\<^verbatim>\<open>s.lower()\<close>: A-Z, and the Latin-1 capitals other than the multiplication sign.\<close>

definition lower_char :: "char \<Rightarrow> char" where
  "lower_char c =
     (let n = (of_char c :: nat)
      in if (65 \<le> n \<and> n \<le> 90) \<or> (192 \<le> n \<and> n \<le> 222 \<and> n \<noteq> 215)
         then char_of (n + 32) else c)"

definition lower :: "string \<Rightarrow> string" where
  "lower s = map lower_char s"

text \<open>\<^verbatim>\<open>s.startswith(p)\<close>.\<close>

fun startswith :: "string \<Rightarrow> string \<Rightarrow> bool" where
  "startswith s [] = True"
| "startswith [] (p # ps) = False"
| "startswith (c # cs) (p # ps) = (c = p \<and> startswith cs ps)"

text \<open>\<^verbatim>\<open>sub in s\<close>.\<close>

fun contains :: "string \<Rightarrow> string \<Rightarrow> bool" where
  "contains sub [] = (sub = [])"
| "contains sub (c # cs) = (startswith (c # cs) sub \<or> contains sub cs)"

subsection \<open>The builtin \<^verbatim>\<open>float(str)\<close>\<close>

text \<open>
  Underscores may separate digits and nothing else; they are removed before the number is
  read. \<open>prev\<close> is the character before the current one.
\<close>

fun drop_underscores :: "char option \<Rightarrow> string \<Rightarrow> string option" where
  "drop_underscores prev [] = (if prev = Some CHR ''_'' then None else Some [])"
| "drop_underscores prev (c # cs) =
     (if c = CHR ''_'' then
        (case prev of
           None \<Rightarrow> None
         | Some p \<Rightarrow> if isdigit p then drop_underscores (Some c) cs else None)
      else if prev = Some CHR ''_'' \<and> \<not> isdigit c then None
      else map_option ((#) c) (drop_underscores (Some c) cs))"

definition digit_val :: "char \<Rightarrow> nat" where
  "digit_val c = of_char c - 48"

definition digits_val :: "string \<Rightarrow> nat" where
  "digits_val ds = foldl (\<lambda>a c. 10 * a + digit_val c) 0 ds"

text \<open>The exponent part: empty, or \<^verbatim>\<open>e\<close>, an optional sign and at least one digit.\<close>

definition parse_exponent :: "string \<Rightarrow> int option" where
  "parse_exponent s =
     (case s of
        [] \<Rightarrow> Some 0
      | c # r \<Rightarrow>
          if c = CHR ''e'' \<or> c = CHR ''E'' then
            (let (neg, ds) = (case r of
                                [] \<Rightarrow> (False, [])
                              | d # r' \<Rightarrow> if d = CHR ''-'' then (True, r')
                                          else if d = CHR ''+'' then (False, r')
                                          else (False, r))
             in if ds \<noteq> [] \<and> list_all isdigit ds
                then Some (if neg then - int (digits_val ds) else int (digits_val ds))
                else None)
          else None)"

definition scale10 :: "nat \<Rightarrow> int \<Rightarrow> real" where
  "scale10 m e = (if 0 \<le> e then real m * 10 ^ nat e else real m / 10 ^ nat (- e))"

text \<open>
  An unsigned decimal number: digits, an optional point, digits, an optional exponent, with
  at least one digit before the exponent.
\<close>

definition parse_decimal :: "string \<Rightarrow> real option" where
  "parse_decimal s =
     (let ip = takeWhile isdigit s;
          r1 = dropWhile isdigit s;
          (fp, r2) = (case r1 of
                        [] \<Rightarrow> ([], [])
                      | c # r \<Rightarrow> if c = CHR ''.'' then (takeWhile isdigit r, dropWhile isdigit r)
                                 else ([], r1))
      in if ip = [] \<and> fp = [] then None
         else case parse_exponent r2 of
                None \<Rightarrow> None
              | Some e \<Rightarrow> Some (scale10 (digits_val (ip @ fp)) (e - int (length fp))))"

text \<open>
  An unsigned value: a spelling of infinity or NaN in any case, or a decimal number, which
  is infinite when it is too large for a float.
\<close>

definition parse_abs :: "string \<Rightarrow> pyfloat option" where
  "parse_abs s =
     (if lower s = ''inf'' \<or> lower s = ''infinity'' then Some PInf
      else if lower s = ''nan'' then Some NaN
      else map_option to_float (parse_decimal s))"

text \<open>
  Leading and trailing blanks are skipped; the separators \<^verbatim>\<open>\x1c\<close> to \<^verbatim>\<open>\x1f\<close>, which
  \<^verbatim>\<open>str.strip\<close> removes, are not blanks here.
\<close>

definition float_blank :: "char \<Rightarrow> bool" where
  "float_blank c \<longleftrightarrow> c \<in> set [CHR 0x09, CHR 0x0A, CHR 0x0B, CHR 0x0C, CHR 0x0D,
     CHR 0x20, CHR 0x85, CHR 0xA0]"

definition float_strip :: "string \<Rightarrow> string" where
  "float_strip s = rev (dropWhile float_blank (rev (dropWhile float_blank s)))"

definition py_float :: "string \<Rightarrow> error + pyfloat" where
  "py_float s =
     (case drop_underscores None s of
        None \<Rightarrow> Inl ValueError
      | Some u \<Rightarrow>
          (let t = float_strip u;
               (neg, body) = (case t of
                                [] \<Rightarrow> (False, [])
                              | c # r \<Rightarrow> if c = CHR ''-'' then (True, r)
                                         else if c = CHR ''+'' then (False, r)
                                         else (False, t))
           in case parse_abs body of
                None \<Rightarrow> Inl ValueError
              | Some v \<Rightarrow> Inr (if neg then fneg v else v)))"

section \<open>Helper functions to parse input\<close>

text \<open>\<^verbatim>\<open>re.match(r"([\d\.]+)", s)\<close>: the longest nonempty prefix of digits and points.\<close>

definition re_match_number :: "string \<Rightarrow> string option" where
  "re_match_number s =
     (let g = takeWhile (\<lambda>c. isdigit c \<or> c = CHR ''.'') s
      in if g = [] then None else Some g)"

definition parse_data_size :: "string \<Rightarrow> error + pyfloat" where
  "parse_data_size size_str =
     (let s = lower (strip size_str)
      in if contains ''#div/0'' s \<or> s = ''0.00 mb'' \<or> startswith s ''0.00'' then Inr (Fin 0)
         else if s = ''0.00 mb'' \<or> s = [] then Inr (Fin 0)
         else case re_match_number s of
                None \<Rightarrow> Inr (Fin 0)
              | Some g \<Rightarrow>
                  (case py_float g of
                     Inl e \<Rightarrow> Inl e
                   | Inr val \<Rightarrow>
                       if contains ''tb'' s then Inr (fmul val (Fin 1024))
                       else if contains ''gb'' s then Inr val
                       else if contains ''mb'' s then fdiv val (Fin 1024)
                       else Inr val))"

text \<open>The bare \<^verbatim>\<open>except\<close> turns every failure of \<^verbatim>\<open>float\<close> into 0.0.\<close>

definition parse_float_maybe :: "string \<Rightarrow> pyfloat" where
  "parse_float_maybe s0 =
     (let s = lower (strip s0)
      in if contains ''#div/0'' s \<or> s = [] then Fin 0
         else case py_float s of Inl e \<Rightarrow> Fin 0 | Inr v \<Rightarrow> v)"

text \<open>\<^verbatim>\<open>round(x, n)\<close> on a float: half-way cases go to the even neighbour.\<close>

definition round_half_even :: "real \<Rightarrow> int" where
  "round_half_even x =
     (let f = \<lfloor>x\<rfloor>; d = x - of_int f
      in if d < 1 / 2 then f else if 1 / 2 < d then f + 1 else if even f then f else f + 1)"

fun py_round :: "pyfloat \<Rightarrow> nat \<Rightarrow> pyfloat" where
  "py_round (Fin x) n = Fin (of_int (round_half_even (x * 10 ^ n)) / 10 ^ n)"
| "py_round v n = v"

section \<open>Reading the input\<close>

record client_rec =
  client :: string
  data_gb :: pyfloat
  avg_read_ops_s :: pyfloat
  avg_write_ops_s :: pyfloat

text \<open>Adding a character to the field that is being read.\<close>

fun cons_first :: "char \<Rightarrow> string list \<Rightarrow> string list" where
  "cons_first c [] = [[c]]"
| "cons_first c (f # fs) = (c # f) # fs"

text \<open>\<^verbatim>\<open>s.split(sep)\<close> for a separator of one character.\<close>

fun split_on :: "char \<Rightarrow> string \<Rightarrow> string list" where
  "split_on sep [] = [[]]"
| "split_on sep (c # cs) =
     (if c = sep then [] # split_on sep cs else cons_first c (split_on sep cs))"

text \<open>\<^verbatim>\<open>re.split(r"\s{2,}", s)\<close>: every maximal run of two or more spaces separates.\<close>

function re_split_spaces :: "string \<Rightarrow> string list" where
  "re_split_spaces [] = [[]]"
| "re_split_spaces [c] = [[c]]"
| "re_split_spaces (c # d # cs) =
     (if isspace c \<and> isspace d then [] # re_split_spaces (dropWhile isspace cs)
      else cons_first c (re_split_spaces (d # cs)))"
  by pat_completeness auto
termination
  by (relation "measure length") (auto simp: less_Suc_eq_le intro: le_SucI length_dropWhile_le)

definition split_columns :: "string \<Rightarrow> string list" where
  "split_columns raw_line =
     (let cols = split_on CHR 0x09 raw_line
      in if length cols < 4 then re_split_spaces raw_line else cols)"

text \<open>
  The inner \<^verbatim>\<open>for d in clients_data\<close> of a five-column line: the first record of the
  client takes the new rates and the loop breaks. The flag is \<^verbatim>\<open>found\<close>.
\<close>

fun set_ops :: "string \<Rightarrow> pyfloat \<Rightarrow> pyfloat \<Rightarrow> client_rec list \<Rightarrow> bool \<times> client_rec list" where
  "set_ops client_name read_ops write_ops [] = (False, [])"
| "set_ops client_name read_ops write_ops (d # ds) =
     (if client d = client_name
      then (True, d\<lparr>avg_read_ops_s := read_ops, avg_write_ops_s := write_ops\<rparr> # ds)
      else (let (found, ds') = set_ops client_name read_ops write_ops ds in (found, d # ds')))"

text \<open>The body of \<^verbatim>\<open>for line in f\<close>.\<close>

definition read_line :: "client_rec list \<Rightarrow> string \<Rightarrow> error + client_rec list" where
  "read_line clients_data line =
     (let raw_line = strip line
      in if raw_line = [] then Inr clients_data
         else
           (let cols = split_columns raw_line
            in if length cols = 4 then
                 (let client_name = lower (strip (cols ! 0));
                      size_2025_02_07 = strip (cols ! 2)
                  in case parse_data_size size_2025_02_07 of
                       Inl e \<Rightarrow> Inl e
                     | Inr gb \<Rightarrow>
                         Inr (clients_data @
                           [\<lparr>client = client_name, data_gb = gb,
                             avg_read_ops_s = Fin 0, avg_write_ops_s = Fin 0\<rparr>]))
               else if length cols = 5 then
                 (let client_name = lower (strip (cols ! 0));
                      read_ops = parse_float_maybe (cols ! 1);
                      write_ops = parse_float_maybe (cols ! 2);
                      (found, updated) = set_ops client_name read_ops write_ops clients_data
                  in if found then Inr updated
                     else Inr (clients_data @
                            [\<lparr>client = client_name, data_gb = Fin 0,
                              avg_read_ops_s = read_ops, avg_write_ops_s = write_ops\<rparr>]))
               else Inr clients_data))"

fun read_lines :: "client_rec list \<Rightarrow> string list \<Rightarrow> error + client_rec list" where
  "read_lines clients_data [] = Inr clients_data"
| "read_lines clients_data (line # rest) =
     (case read_line clients_data line of
        Inl e \<Rightarrow> Inl e
      | Inr clients_data' \<Rightarrow> read_lines clients_data' rest)"

definition read_input :: "string list \<Rightarrow> error + client_rec list" where
  "read_input f = read_lines [] f"

section \<open>Classification and cluster recommendation (\<^verbatim>\<open>MongoDBSizing_CL.py\<close>)\<close>

definition DATA_INTENSIVE_THRESHOLD :: pyfloat where
  "DATA_INTENSIVE_THRESHOLD = Fin 1024"

definition IOPS_INTENSIVE_THRESHOLD :: pyfloat where
  "IOPS_INTENSIVE_THRESHOLD = Fin 4000"

definition CLUSTER_TIERS :: "(string \<times> pyfloat) list" where
  "CLUSTER_TIERS =
     [(''M30'', Fin 1500), (''M50'', Fin 3000), (''M100'', Fin 5000), (''M200'', Fin 8000)]"

definition recommend_cluster_tier :: "pyfloat \<Rightarrow> pyfloat \<Rightarrow> string" where
  "recommend_cluster_tier gb iops =
     (if fge gb (Fin 5000) \<or> fge iops (Fin 15000) then ''M200''
      else if fge gb (Fin 2000) \<or> fge iops (Fin 8000) then ''M100''
      else if fge gb (Fin 500) \<or> fge iops (Fin 2000) then ''M50''
      else ''M30'')"

definition classify :: "pyfloat \<Rightarrow> pyfloat \<Rightarrow> string" where
  "classify gb iops =
     (let data_intensive = fge gb DATA_INTENSIVE_THRESHOLD;
          iops_intensive = fge iops IOPS_INTENSIVE_THRESHOLD
      in if data_intensive \<and> iops_intensive then ''Data+IOPS Intensive''
         else if data_intensive then ''Data-Intensive''
         else if iops_intensive then ''IOPS-Intensive''
         else ''Moderate'')"

text \<open>\<^verbatim>\<open>CLUSTER_TIERS.get(tier, 2000.0)\<close>.\<close>

definition tier_monthly_cost :: "string \<Rightarrow> pyfloat" where
  "tier_monthly_cost tier = (case map_of CLUSTER_TIERS tier of None \<Rightarrow> Fin 2000 | Some c \<Rightarrow> c)"

text \<open>A cell of a row handed to the CSV writer.\<close>

datatype cell = Str string | Num pyfloat

definition estimate_header :: "cell list" where
  "estimate_header =
     [Str ''Client'', Str ''Data_GB'', Str ''Avg_Read_Ops_s'', Str ''Avg_Write_Ops_s'',
      Str ''Total_IOPS'', Str ''Classification'', Str ''Recommended_Cluster'',
      Str ''Estimated_Monthly_Cost'']"

text \<open>The body of the output loop: the row written for one client.\<close>

definition estimate_row :: "client_rec \<Rightarrow> cell list" where
  "estimate_row d =
     (let gb = data_gb d;
          read_ops = avg_read_ops_s d;
          write_ops = avg_write_ops_s d;
          iops = fadd read_ops write_ops;
          classification = classify gb iops;
          tier = recommend_cluster_tier gb iops;
          monthly_cost = tier_monthly_cost tier
      in [Str (client d), Num (py_round gb 3), Num (py_round read_ops 3),
          Num (py_round write_ops 3), Num (py_round iops 3), Str classification, Str tier,
          Num (py_round monthly_cost 2)])"

definition write_estimate :: "client_rec list \<Rightarrow> cell list list" where
  "write_estimate clients_data = estimate_header # map estimate_row clients_data"

section \<open>Cost shares (\<^verbatim>\<open>MongoSizing.py\<close>)\<close>

definition TOTAL_CLUSTER_COST :: pyfloat where
  "TOTAL_CLUSTER_COST = Fin 240000"

definition PURE_DATA_ONLY :: bool where
  "PURE_DATA_ONLY = True"

definition DEFAULT_DATA_WEIGHT :: pyfloat where
  "DEFAULT_DATA_WEIGHT = Fin (1 / 2)"

definition DEFAULT_IOPS_WEIGHT :: pyfloat where
  "DEFAULT_IOPS_WEIGHT = Fin (1 / 2)"

definition HEAVY_DATA_WEIGHT :: pyfloat where
  "HEAVY_DATA_WEIGHT = Fin (1 / 4)"

definition HEAVY_IOPS_WEIGHT :: pyfloat where
  "HEAVY_IOPS_WEIGHT = Fin (3 / 4)"

definition HEAVY_IOPS_CLIENTS :: "string list" where
  "HEAVY_IOPS_CLIENTS = [''adventhealth'', ''clevelandclin'', ''psjhealth'']"

definition IOPS_THRESHOLD :: pyfloat where
  "IOPS_THRESHOLD = Fin 4000"

definition client_iops :: "client_rec \<Rightarrow> pyfloat" where
  "client_iops d = fadd (avg_read_ops_s d) (avg_write_ops_s d)"

text \<open>The two sums, each replaced by \<^verbatim>\<open>1e-9\<close> when it compares equal to 0.\<close>

definition total_data_gb :: "client_rec list \<Rightarrow> pyfloat" where
  "total_data_gb clients_data =
     (let t = fsum (map data_gb clients_data) in if feq t (Fin 0) then Fin (1 / 10 ^ 9) else t)"

definition total_iops :: "client_rec list \<Rightarrow> pyfloat" where
  "total_iops clients_data =
     (let t = fsum (map client_iops clients_data) in if feq t (Fin 0) then Fin (1 / 10 ^ 9) else t)"

text \<open>The values the output loop computes for one client, before they are rounded.\<close>

record share =
  share_client :: string
  data_share :: pyfloat
  iops_share :: pyfloat
  weighted_share :: pyfloat
  monthly_cost :: pyfloat

text \<open>
  The body of the output loop. \<open>pure\<close> is the flag \<^verbatim>\<open>PURE_DATA_ONLY\<close>, \<open>tdg\<close> and \<open>ti\<close>
  are the two totals.
\<close>

definition client_share :: "bool \<Rightarrow> pyfloat \<Rightarrow> pyfloat \<Rightarrow> client_rec \<Rightarrow> error + share" where
  "client_share pure tdg ti d =
     (let iops = client_iops d
      in case fdiv (data_gb d) tdg of
           Inl e \<Rightarrow> Inl e
         | Inr ds \<Rightarrow>
             (case fdiv iops ti of
                Inl e \<Rightarrow> Inl e
              | Inr is \<Rightarrow>
                  (let ws =
                         (if pure then ds
                          else
                            (let (data_w, iops_w) =
                                   (if client d \<in> set HEAVY_IOPS_CLIENTS \<or> fge iops IOPS_THRESHOLD
                                    then (HEAVY_DATA_WEIGHT, HEAVY_IOPS_WEIGHT)
                                    else (DEFAULT_DATA_WEIGHT, DEFAULT_IOPS_WEIGHT))
                             in fadd (fmul ds data_w) (fmul is iops_w)))
                   in Inr \<lparr>share_client = client d, data_share = ds, iops_share = is,
                           weighted_share = ws, monthly_cost = fmul ws TOTAL_CLUSTER_COST\<rparr>)))"

fun client_shares :: "bool \<Rightarrow> pyfloat \<Rightarrow> pyfloat \<Rightarrow> client_rec list \<Rightarrow> error + share list" where
  "client_shares pure tdg ti [] = Inr []"
| "client_shares pure tdg ti (d # ds) =
     (case client_share pure tdg ti d of
        Inl e \<Rightarrow> Inl e
      | Inr s \<Rightarrow>
          (case client_shares pure tdg ti ds of
             Inl e \<Rightarrow> Inl e
           | Inr ss \<Rightarrow> Inr (s # ss)))"

definition cost_shares :: "bool \<Rightarrow> client_rec list \<Rightarrow> error + share list" where
  "cost_shares pure clients_data =
     client_shares pure (total_data_gb clients_data) (total_iops clients_data) clients_data"

text \<open>The row written for one client: the values above, rounded for display.\<close>

definition share_row :: "client_rec \<Rightarrow> share \<Rightarrow> cell list" where
  "share_row d s =
     [Str (client d), Num (py_round (data_gb d) 3), Num (py_round (avg_read_ops_s d) 3),
      Num (py_round (avg_write_ops_s d) 3), Num (py_round (client_iops d) 3),
      Num (py_round (data_share s) 6), Num (py_round (iops_share s) 6),
      Num (py_round (weighted_share s) 6), Num (py_round (monthly_cost s) 2)]"

definition shares_header :: "cell list" where
  "shares_header =
     [Str ''Client'', Str ''Data_GB'', Str ''Avg_Read_Ops_s'', Str ''Avg_Write_Ops_s'',
      Str ''Total_IOPS'', Str ''Data_Share'', Str ''IOPS_Share'', Str ''Weighted_Share'',
      Str ''Monthly_Cost'']"

definition write_shares :: "client_rec list \<Rightarrow> error + cell list list" where
  "write_shares clients_data =
     (case cost_shares PURE_DATA_ONLY clients_data of
        Inl e \<Rightarrow> Inl e
      | Inr ss \<Rightarrow> Inr (shares_header # map (\<lambda>(d, s). share_row d s) (zip clients_data ss)))"

section \<open>Predicates used in the statements\<close>

text \<open>A finite value that is at least 0.\<close>

definition nonneg :: "pyfloat \<Rightarrow> bool" where
  "nonneg v \<longleftrightarrow> (\<exists>r. v = Fin r \<and> 0 \<le> r)"

text \<open>A value that is NaN, or for which \<^verbatim>\<open>v >= 0\<close> holds.\<close>

definition not_negative :: "pyfloat \<Rightarrow> bool" where
  "not_negative v \<longleftrightarrow> v = NaN \<or> fge v (Fin 0)"

text \<open>A value that is neither infinite nor NaN, and the real number it holds.\<close>

definition finite_float :: "pyfloat \<Rightarrow> bool" where
  "finite_float v \<longleftrightarrow> (\<exists>r. v = Fin r)"

fun fval :: "pyfloat \<Rightarrow> real" where
  "fval (Fin r) = r"
| "fval v = 0"

text \<open>
  The text of column \<open>i\<close> of a line, when the line is a five-column line of the client
  \<open>client_name\<close>; column 1 holds the read rate and column 2 the write rate.
\<close>

definition rate_texts :: "nat \<Rightarrow> string \<Rightarrow> string \<Rightarrow> string list" where
  "rate_texts i client_name line =
     (let cols = split_columns (strip line)
      in if length cols = 5 \<and> lower (strip (cols ! 0)) = client_name then [cols ! i] else [])"

text \<open>
  The rate \<open>v\<close> is 0.0, or it is what \<open>parse_float_maybe\<close> reads in column \<open>i\<close> of a
  five-column line of the client among the lines \<open>f\<close>.
\<close>

definition rate_from :: "nat \<Rightarrow> string list \<Rightarrow> string \<Rightarrow> pyfloat \<Rightarrow> bool" where
  "rate_from i f client_name v \<longleftrightarrow>
     v = Fin 0 \<or> (\<exists>line\<in>set f. \<exists>t\<in>set (rate_texts i client_name line). v = parse_float_maybe t)"

text \<open>The test by which the blended policy gives a client the 25/75 weights.\<close>

definition takes_heavy_weights :: "client_rec \<Rightarrow> bool" where
  "takes_heavy_weights d \<longleftrightarrow>
     client d \<in> set HEAVY_IOPS_CLIENTS \<or> fge (client_iops d) IOPS_THRESHOLD"

text \<open>\<open>s\<close> is what the output loop computes for the client \<open>d\<close>.\<close>

definition share_of :: "bool \<Rightarrow> pyfloat \<Rightarrow> pyfloat \<Rightarrow> client_rec \<Rightarrow> share \<Rightarrow> bool" where
  "share_of pure tdg ti d s \<longleftrightarrow> client_share pure tdg ti d = Inr s"

section \<open>Evaluation and basic facts of the parsers\<close>

lemma float_overflow_pos: "0 < float_overflow"
  by (simp add: float_overflow_def)

lemma to_float_small: "\<bar>x\<bar> \<le> 2 ^ 1000 \<Longrightarrow> to_float x = Fin x"
  by (auto simp: to_float_def float_overflow_def)

text \<open>Values of moderate size, as the examples have them, do not overflow.\<close>

lemma to_float_moderate: "\<bar>x\<bar> \<le> 1000000000000 \<Longrightarrow> to_float x = Fin x"
  by (rule to_float_small) simp

lemmas parse_eval = parse_data_size_def parse_float_maybe_def py_float_def parse_abs_def
  parse_decimal_def parse_exponent_def scale10_def digits_val_def digit_val_def
  re_match_number_def lower_def lower_char_def strip_def isspace_def isdigit_def Let_def
  char_of_def bit_0 float_strip_def float_blank_def to_float_moderate

lemma to_float_nonneg: "0 \<le> x \<Longrightarrow> to_float x = PInf \<or> to_float x = Fin x"
  using float_overflow_pos by (auto simp: to_float_def)

lemma to_float_zero: "to_float 0 = Fin 0"
  using float_overflow_pos by (simp add: to_float_def)

text \<open>\<open>v >= 0\<close> holds of the finite values from 0 on and of infinity.\<close>

lemma fge_zero_iff: "fge v (Fin 0) \<longleftrightarrow> nonneg v \<or> v = PInf"
  by (cases v) (auto simp: nonneg_def)

lemma fge_zero_to_float: "0 \<le> x \<Longrightarrow> fge (to_float x) (Fin 0)"
  using to_float_nonneg[of x] by (auto simp: fge_zero_iff nonneg_def)

lemma set_strip: "set (strip s) \<subseteq> set s"
  unfolding strip_def by (auto dest!: set_dropWhileD)

lemma set_float_strip: "set (float_strip s) \<subseteq> set s"
  unfolding float_strip_def by (auto dest!: set_dropWhileD)

lemma set_drop_underscores: "drop_underscores p s = Some u \<Longrightarrow> set u \<subseteq> set s"
proof (induction s arbitrary: p u)
  case Nil
  then show ?case by (simp split: if_splits)
next
  case (Cons c cs)
  show ?case
  proof (cases "c = CHR ''_''")
    case True
    with Cons.prems obtain q where "drop_underscores q cs = Some u"
      by (auto split: option.splits if_splits)
    from Cons.IH[OF this] show ?thesis by auto
  next
    case False
    with Cons.prems obtain z where "drop_underscores (Some c) cs = Some z" "u = c # z"
      by (auto split: if_splits)
    with Cons.IH[of "Some c" z] show ?thesis by auto
  qed
qed

lemma scale10_nonneg: "0 \<le> scale10 m e"
  by (simp add: scale10_def)

lemma parse_decimal_nonneg: "parse_decimal s = Some r \<Longrightarrow> 0 \<le> r"
  by (auto simp: parse_decimal_def Let_def scale10_nonneg split: prod.splits option.splits if_splits)

lemma parse_abs_cases:
  assumes "parse_abs body = Some v"
  shows "v = PInf \<or> v = NaN \<or> nonneg v"
proof (cases "v = PInf \<or> v = NaN")
  case True
  then show ?thesis by blast
next
  case False
  with assms obtain r where r: "parse_decimal body = Some r" "v = to_float r"
    by (auto simp: parse_abs_def split: if_splits)
  from parse_decimal_nonneg[OF r(1)] to_float_nonneg[of r] r(2) False
  show ?thesis by (auto simp: nonneg_def)
qed

lemma parse_abs_Nil: "parse_abs [] = None"
  by (simp add: parse_abs_def parse_decimal_def lower_def)

lemma py_float_unsigned:
  assumes "CHR ''-'' \<notin> set s" and "py_float s = Inr v"
  shows "v = PInf \<or> v = NaN \<or> nonneg v"
proof -
  from assms(2) obtain u where u: "drop_underscores None s = Some u"
    by (auto simp: py_float_def split: option.splits)
  define t where "t = float_strip u"
  have "set t \<subseteq> set s"
    using set_drop_underscores[OF u] set_float_strip[of u] by (auto simp: t_def)
  with assms(1) have nominus: "CHR ''-'' \<notin> set t" by auto
  show ?thesis
  proof (cases t)
    case Nil
    with assms(2) u show ?thesis
      by (simp add: py_float_def t_def[symmetric] parse_abs_Nil)
  next
    case (Cons c r)
    with nominus have "c \<noteq> CHR ''-''" by auto
    with assms(2) u Cons show ?thesis
      by (auto simp: py_float_def t_def[symmetric] split: if_splits option.splits dest: parse_abs_cases)
  qed
qed

lemma lower_char_minus:
  assumes "lower_char c = CHR ''-''"
  shows "c = CHR ''-''"
proof (rule ccontr)
  assume neq: "c \<noteq> CHR ''-''"
  define n where "n = (of_char c :: nat)"
  from assms neq have up: "char_of (n + 32) = CHR ''-''"
    and rng: "65 \<le> n" "n \<le> 222"
    by (auto simp: lower_char_def n_def[symmetric] Let_def split: if_splits)
  from up have "(of_char (char_of (n + 32)) :: nat) = of_char CHR ''-''"
    by (rule arg_cong)
  then have "(n + 32) mod 256 = 45" by simp
  moreover from rng have "(n + 32) mod 256 = n + 32" by simp
  ultimately show False using rng by linarith
qed

lemma lower_no_minus:
  assumes "CHR ''-'' \<notin> set s"
  shows "CHR ''-'' \<notin> set (lower (strip s))"
proof
  assume "CHR ''-'' \<in> set (lower (strip s))"
  then obtain c where c: "c \<in> set (strip s)" "lower_char c = CHR ''-''"
    by (auto simp: lower_def)
  from c(2) have "c = CHR ''-''" by (rule lower_char_minus)
  with c(1) set_strip[of s] assms show False by auto
qed

lemma nonneg_not_negative: "nonneg v \<Longrightarrow> not_negative v"
  by (auto simp: nonneg_def not_negative_def)

lemma parse_float_maybe_unsigned:
  "CHR ''-'' \<notin> set s \<Longrightarrow> not_negative (parse_float_maybe s)"
  using py_float_unsigned[OF lower_no_minus, of s]
  by (auto simp: parse_float_maybe_def Let_def not_negative_def nonneg_def split: sum.splits)

lemma lower_digits: "set s \<subseteq> set ''0123456789.'' \<Longrightarrow> lower s = s"
  unfolding lower_def by (rule map_idI) (auto simp: lower_char_def)

lemma py_float_digits:
  assumes "set g \<subseteq> set ''0123456789.''" and "py_float g = Inr v"
  shows "fge v (Fin 0)"
proof -
  from assms(2) obtain u where u: "drop_underscores None g = Some u"
    by (auto simp: py_float_def split: option.splits)
  define t where "t = float_strip u"
  have sub: "set t \<subseteq> set ''0123456789.''"
    using set_drop_underscores[OF u] set_float_strip[of u] assms(1) by (auto simp: t_def)
  have body: "parse_abs t = Some v"
    using assms(2) u sub
    by (cases t) (auto simp: py_float_def t_def[symmetric] parse_abs_Nil split: if_splits option.splits)
  have "lower t = t" using sub by (rule lower_digits)
  moreover have "t \<noteq> ''nan''" using sub by auto
  ultimately have "v \<noteq> NaN"
    using body by (auto simp: parse_abs_def to_float_def split: if_splits)
  with parse_abs_cases[OF body] show ?thesis by (auto simp: fge_zero_iff)
qed

lemma re_match_number_chars: "re_match_number s = Some g \<Longrightarrow> set g \<subseteq> set ''0123456789.''"
  by (auto simp: re_match_number_def Let_def isdigit_def split: if_splits dest!: set_takeWhileD)

lemma nonneg_zero: "nonneg (Fin 0)"
  by (simp add: nonneg_def)

lemma fge_zero_times_1024: "fge v (Fin 0) \<Longrightarrow> fge (fmul v (Fin 1024)) (Fin 0)"
  by (cases v) (auto intro: fge_zero_to_float)

lemma fge_zero_over_1024: "fge v (Fin 0) \<Longrightarrow> fdiv v (Fin 1024) = Inr w \<Longrightarrow> fge w (Fin 0)"
  by (cases v) (auto intro: fge_zero_to_float)

lemma parse_data_size_ge_zero:
  assumes "parse_data_size s = Inr v"
  shows "fge v (Fin 0)"
proof -
  define t where "t = lower (strip s)"
  show ?thesis
  proof (cases "contains ''#div/0'' t \<or> t = ''0.00 mb'' \<or> startswith t ''0.00'' \<or> t = []
      \<or> re_match_number t = None")
    case True
    with assms have "v = Fin 0"
      by (auto simp: parse_data_size_def t_def[symmetric] Let_def split: if_splits)
    then show ?thesis by simp
  next
    case False
    then obtain g where g: "re_match_number t = Some g" by auto
    with False assms obtain val where val: "py_float g = Inr val"
      by (auto simp: parse_data_size_def t_def[symmetric] Let_def split: sum.splits)
    have nn: "fge val (Fin 0)"
      using re_match_number_chars[OF g] val by (rule py_float_digits)
    from False g val assms have
      "v = fmul val (Fin 1024) \<or> v = val \<or> fdiv val (Fin 1024) = Inr v"
      by (auto simp: parse_data_size_def t_def[symmetric] Let_def split: if_splits)
    with nn show ?thesis
      by (auto intro: fge_zero_times_1024 fge_zero_over_1024)
  qed
qed

text \<open>A literal beyond the largest float is read as infinity.\<close>

lemma float_overflows: "py_float ''1e309'' = Inr PInf" "parse_float_maybe ''1E309'' = PInf"
  by (simp_all add: parse_eval to_float_def float_overflow_def)

section \<open>Facts of the input loop\<close>

lemmas read_eval = read_input_def read_line_def split_columns_def

lemma set_ops_preserves:
  assumes "set_ops c r w ds = (found, ds')"
    and "\<forall>d\<in>set ds. P d"
    and "\<And>d. client d = c \<Longrightarrow> P d \<Longrightarrow> P (d\<lparr>avg_read_ops_s := r, avg_write_ops_s := w\<rparr>)"
  shows "\<forall>d\<in>set ds'. P d"
  using assms(1,2)
proof (induction ds arbitrary: found ds')
  case Nil
  then show ?case by simp
next
  case (Cons a ds)
  show ?case
  proof (cases "client a = c")
    case True
    with Cons.prems have "ds' = a\<lparr>avg_read_ops_s := r, avg_write_ops_s := w\<rparr> # ds" by simp
    with Cons.prems(2) assms(3)[of a] True show ?thesis by simp
  next
    case False
    obtain f1 ds1 where r: "set_ops c r w ds = (f1, ds1)" by (cases "set_ops c r w ds")
    with False Cons.prems(1) have "ds' = a # ds1" by simp
    with Cons.IH[OF r] Cons.prems(2) show ?thesis by simp
  qed
qed

text \<open>
  One line of the input keeps a property of all records, when the record a size row
  appends has it and the rates of a throughput row give it to the records of its client.
\<close>

lemma read_line_preserves:
  assumes rl: "read_line cd l = Inr cd'"
    and inv: "\<forall>d\<in>set cd. P d"
    and size: "\<And>cols gb. cols = split_columns (strip l) \<Longrightarrow> length cols = 4 \<Longrightarrow>
        parse_data_size (strip (cols ! 2)) = Inr gb \<Longrightarrow>
        P \<lparr>client = lower (strip (cols ! 0)), data_gb = gb, avg_read_ops_s = Fin 0,
           avg_write_ops_s = Fin 0\<rparr>"
    and new: "\<And>cols. cols = split_columns (strip l) \<Longrightarrow> length cols = 5 \<Longrightarrow>
        P \<lparr>client = lower (strip (cols ! 0)), data_gb = Fin 0,
           avg_read_ops_s = parse_float_maybe (cols ! 1),
           avg_write_ops_s = parse_float_maybe (cols ! 2)\<rparr>"
    and upd: "\<And>cols d. cols = split_columns (strip l) \<Longrightarrow> length cols = 5 \<Longrightarrow>
        client d = lower (strip (cols ! 0)) \<Longrightarrow> P d \<Longrightarrow>
        P (d\<lparr>avg_read_ops_s := parse_float_maybe (cols ! 1),
             avg_write_ops_s := parse_float_maybe (cols ! 2)\<rparr>)"
  shows "\<forall>d\<in>set cd'. P d"
proof -
  define cols where "cols = split_columns (strip l)"
  consider (blank) "strip l = []" | (four) "strip l \<noteq> []" "length cols = 4"
    | (five) "strip l \<noteq> []" "length cols = 5"
    | (other) "strip l \<noteq> []" "length cols \<noteq> 4" "length cols \<noteq> 5"
    by blast
  then show ?thesis
  proof cases
    case blank
    with rl inv show ?thesis by (simp add: read_line_def)
  next
    case four
    with rl obtain gb where gb: "parse_data_size (strip (cols ! 2)) = Inr gb"
      and cd': "cd' = cd @ [\<lparr>client = lower (strip (cols ! 0)), data_gb = gb,
                             avg_read_ops_s = Fin 0, avg_write_ops_s = Fin 0\<rparr>]"
      by (auto simp: read_line_def cols_def[symmetric] Let_def split: sum.splits)
    from size[OF cols_def four(2) gb] inv show ?thesis by (simp add: cd')
  next
    case five
    obtain found updated where so: "set_ops (lower (strip (cols ! 0)))
        (parse_float_maybe (cols ! 1)) (parse_float_maybe (cols ! 2)) cd = (found, updated)"
      by (cases "set_ops (lower (strip (cols ! 0))) (parse_float_maybe (cols ! 1))
        (parse_float_maybe (cols ! 2)) cd")
    with five rl have "cd' = updated \<or>
       cd' = cd @ [\<lparr>client = lower (strip (cols ! 0)), data_gb = Fin 0,
                    avg_read_ops_s = parse_float_maybe (cols ! 1),
                    avg_write_ops_s = parse_float_maybe (cols ! 2)\<rparr>]"
      by (auto simp: read_line_def cols_def[symmetric] Let_def split: if_splits)
    moreover have "\<forall>d\<in>set updated. P d"
      using so inv by (rule set_ops_preserves) (rule upd[OF cols_def five(2)])
    ultimately show ?thesis using new[OF cols_def five(2)] inv by auto
  next
    case other
    with rl inv show ?thesis by (simp add: read_line_def cols_def[symmetric] Let_def)
  qed
qed

lemma read_line_data_ge_zero:
  assumes "read_line cd l = Inr cd'" and "\<forall>d\<in>set cd. fge (data_gb d) (Fin 0)"
  shows "\<forall>d\<in>set cd'. fge (data_gb d) (Fin 0)"
  using assms by (rule read_line_preserves) (simp_all add: parse_data_size_ge_zero)

lemma read_lines_data_ge_zero:
  "read_lines cd f = Inr cd' \<Longrightarrow> \<forall>d\<in>set cd. fge (data_gb d) (Fin 0) \<Longrightarrow>
   \<forall>d\<in>set cd'. fge (data_gb d) (Fin 0)"
proof (induction f arbitrary: cd)
  case Nil
  then show ?case by simp
next
  case (Cons l ls)
  from Cons.prems(1) obtain cd1 where s: "read_line cd l = Inr cd1" "read_lines cd1 ls = Inr cd'"
    by (auto split: sum.splits)
  from Cons.IH[OF s(2) read_line_data_ge_zero[OF s(1) Cons.prems(2)]] show ?case .
qed

lemma rate_from_mono: "set f \<subseteq> set g \<Longrightarrow> rate_from i f c v \<Longrightarrow> rate_from i g c v"
  by (auto simp: rate_from_def)

lemma rate_from_zero: "rate_from i f c (Fin 0)"
  by (simp add: rate_from_def)

lemma rate_from_line:
  assumes "length (split_columns (strip l)) = 5" and "l \<in> set f"
  shows "rate_from i f (lower (strip (split_columns (strip l) ! 0)))
           (parse_float_maybe (split_columns (strip l) ! i))"
proof -
  have "split_columns (strip l) ! i
      \<in> set (rate_texts i (lower (strip (split_columns (strip l) ! 0))) l)"
    using assms(1) by (simp add: rate_texts_def)
  with assms(2) show ?thesis unfolding rate_from_def by blast
qed

lemma read_line_rates:
  assumes "read_line cd l = Inr cd'"
    and "\<forall>d\<in>set cd. rate_from 1 f (client d) (avg_read_ops_s d) \<and>
                    rate_from 2 f (client d) (avg_write_ops_s d)"
  shows "\<forall>d\<in>set cd'. rate_from 1 (f @ [l]) (client d) (avg_read_ops_s d) \<and>
                     rate_from 2 (f @ [l]) (client d) (avg_write_ops_s d)"
proof -
  have inv: "\<forall>d\<in>set cd. rate_from 1 (f @ [l]) (client d) (avg_read_ops_s d) \<and>
                    rate_from 2 (f @ [l]) (client d) (avg_write_ops_s d)"
    using assms(2) by (auto intro: rate_from_mono[of f "f @ [l]"])
  show ?thesis
    using assms(1) inv
  proof (rule read_line_preserves)
    fix cols :: "string list" and gb
    show "rate_from 1 (f @ [l])
        (client \<lparr>client = lower (strip (cols ! 0)), data_gb = gb, avg_read_ops_s = Fin 0,
           avg_write_ops_s = Fin 0\<rparr>)
        (avg_read_ops_s \<lparr>client = lower (strip (cols ! 0)), data_gb = gb, avg_read_ops_s = Fin 0,
           avg_write_ops_s = Fin 0\<rparr>) \<and>
      rate_from 2 (f @ [l])
        (client \<lparr>client = lower (strip (cols ! 0)), data_gb = gb, avg_read_ops_s = Fin 0,
           avg_write_ops_s = Fin 0\<rparr>)
        (avg_write_ops_s \<lparr>client = lower (strip (cols ! 0)), data_gb = gb, avg_read_ops_s = Fin 0,
           avg_write_ops_s = Fin 0\<rparr>)"
      by (simp add: rate_from_zero)
  next
    fix cols :: "string list"
    assume c: "cols = split_columns (strip l)" "length cols = 5"
    have l: "l \<in> set (f @ [l])" by simp
    from c rate_from_line[OF _ l, of 1] rate_from_line[OF _ l, of 2]
    show "rate_from 1 (f @ [l])
        (client \<lparr>client = lower (strip (cols ! 0)), data_gb = Fin 0,
           avg_read_ops_s = parse_float_maybe (cols ! 1),
           avg_write_ops_s = parse_float_maybe (cols ! 2)\<rparr>)
        (avg_read_ops_s \<lparr>client = lower (strip (cols ! 0)), data_gb = Fin 0,
           avg_read_ops_s = parse_float_maybe (cols ! 1),
           avg_write_ops_s = parse_float_maybe (cols ! 2)\<rparr>) \<and>
      rate_from 2 (f @ [l])
        (client \<lparr>client = lower (strip (cols ! 0)), data_gb = Fin 0,
           avg_read_ops_s = parse_float_maybe (cols ! 1),
           avg_write_ops_s = parse_float_maybe (cols ! 2)\<rparr>)
        (avg_write_ops_s \<lparr>client = lower (strip (cols ! 0)), data_gb = Fin 0,
           avg_read_ops_s = parse_float_maybe (cols ! 1),
           avg_write_ops_s = parse_float_maybe (cols ! 2)\<rparr>)"
      by simp
  next
    fix cols :: "string list" and d :: client_rec
    assume c: "cols = split_columns (strip l)" "length cols = 5"
      and d: "client d = lower (strip (cols ! 0))"
    have l: "l \<in> set (f @ [l])" by simp
    from c d rate_from_line[OF _ l, of 1] rate_from_line[OF _ l, of 2]
    show "rate_from 1 (f @ [l])
        (client (d\<lparr>avg_read_ops_s := parse_float_maybe (cols ! 1),
             avg_write_ops_s := parse_float_maybe (cols ! 2)\<rparr>))
        (avg_read_ops_s (d\<lparr>avg_read_ops_s := parse_float_maybe (cols ! 1),
             avg_write_ops_s := parse_float_maybe (cols ! 2)\<rparr>)) \<and>
      rate_from 2 (f @ [l])
        (client (d\<lparr>avg_read_ops_s := parse_float_maybe (cols ! 1),
             avg_write_ops_s := parse_float_maybe (cols ! 2)\<rparr>))
        (avg_write_ops_s (d\<lparr>avg_read_ops_s := parse_float_maybe (cols ! 1),
             avg_write_ops_s := parse_float_maybe (cols ! 2)\<rparr>))"
      by simp
  qed
qed

lemma read_lines_rates:
  "read_lines cd g = Inr cd' \<Longrightarrow>
   \<forall>d\<in>set cd. rate_from 1 f (client d) (avg_read_ops_s d) \<and>
                rate_from 2 f (client d) (avg_write_ops_s d) \<Longrightarrow>
   \<forall>d\<in>set cd'. rate_from 1 (f @ g) (client d) (avg_read_ops_s d) \<and>
                 rate_from 2 (f @ g) (client d) (avg_write_ops_s d)"
proof (induction g arbitrary: cd f)
  case Nil
  then show ?case by simp
next
  case (Cons l ls)
  from Cons.prems(1) obtain cd1 where s: "read_line cd l = Inr cd1" "read_lines cd1 ls = Inr cd'"
    by (auto split: sum.splits)
  from Cons.IH[OF s(2) read_line_rates[OF s(1) Cons.prems(2)]] show ?case by simp
qed

lemma set_ops_clients:
  "set_ops c r w ds = (found, ds') \<Longrightarrow>
   map client ds' = map client ds \<and> (found \<longleftrightarrow> c \<in> set (map client ds))"
proof (induction ds arbitrary: found ds')
  case Nil
  then show ?case by simp
next
  case (Cons a ds)
  show ?case
  proof (cases "client a = c")
    case True
    with Cons.prems show ?thesis by auto
  next
    case False
    obtain f1 ds1 where r: "set_ops c r w ds = (f1, ds1)" by (cases "set_ops c r w ds")
    with False Cons.prems have "ds' = a # ds1" "found = f1" by simp_all
    with Cons.IH[OF r] False show ?thesis by auto
  qed
qed

lemma throughput_row_keeps_distinct:
  assumes "read_line cd l = Inr cd'" and "length (split_columns (strip l)) = 5"
    and "distinct (map client cd)"
  shows "distinct (map client cd')"
proof -
  define cols where "cols = split_columns (strip l)"
  define name where "name = lower (strip (cols ! 0))"
  obtain found updated where so: "set_ops name (parse_float_maybe (cols ! 1))
      (parse_float_maybe (cols ! 2)) cd = (found, updated)"
    by (cases "set_ops name (parse_float_maybe (cols ! 1)) (parse_float_maybe (cols ! 2)) cd")
  from assms(2) have ne: "strip l \<noteq> []"
    by (auto simp: split_columns_def)
  from set_ops_clients[OF so] have m: "map client updated = map client cd"
    and f: "found \<longleftrightarrow> name \<in> set (map client cd)" by simp_all
  show ?thesis
  proof (cases found)
    case True
    with assms(1,2) ne so have "cd' = updated"
      by (simp add: read_line_def cols_def[symmetric] name_def[symmetric] Let_def)
    with m assms(3) show ?thesis by simp
  next
    case False
    with assms(1,2) ne so have "map client cd' = map client cd @ [name]"
      by (auto simp: read_line_def cols_def[symmetric] name_def[symmetric] Let_def)
    with f False assms(3) show ?thesis by simp
  qed
qed

lemma size_row_appends:
  assumes "read_line cd l = Inr cd'" and "length (split_columns (strip l)) = 4"
  shows "map client cd' = map client cd @ [lower (strip (split_columns (strip l) ! 0))]"
proof -
  from assms(2) have ne: "strip l \<noteq> []"
    by (auto simp: split_columns_def)
  with assms show ?thesis
    by (auto simp: read_line_def Let_def split: sum.splits)
qed

section \<open>Facts of the cost shares\<close>

lemma to_float_bounded: "0 \<le> x \<Longrightarrow> x \<le> 240000 \<Longrightarrow> to_float x = Fin x"
  by (rule to_float_small) simp

lemma foldl_fadd_PInf: "\<forall>v\<in>set vs. fge v (Fin 0) \<Longrightarrow> foldl fadd PInf vs = PInf"
proof (induction vs)
  case Nil
  then show ?case by simp
next
  case (Cons v vs)
  then have "fadd PInf v = PInf" by (cases v) auto
  with Cons show ?case by simp
qed

text \<open>
  A sum of values that are at least 0 is finite only when every value is, and then it is
  their sum: an overflow on the way stays.
\<close>

lemma foldl_fadd_ge_zero:
  assumes "\<forall>v\<in>set vs. fge v (Fin 0)" and "0 \<le> a" and "foldl fadd (Fin a) vs = Fin t"
  shows "(\<forall>v\<in>set vs. nonneg v) \<and> t = a + sum_list (map fval vs)"
  using assms
proof (induction vs arbitrary: a)
  case Nil
  then show ?case by simp
next
  case (Cons v vs)
  from Cons.prems(1) have v: "nonneg v \<or> v = PInf" and rest: "\<forall>v\<in>set vs. fge v (Fin 0)"
    by (simp_all add: fge_zero_iff)
  have notinf: "fadd (Fin a) v \<noteq> PInf"
  proof
    assume "fadd (Fin a) v = PInf"
    with Cons.prems(3) foldl_fadd_PInf[OF rest] show False by simp
  qed
  with v obtain x where x: "v = Fin x" "0 \<le> x" by (auto simp: nonneg_def)
  with notinf Cons.prems(2) to_float_nonneg[of "a + x"] have s: "fadd (Fin a) v = Fin (a + x)"
    by auto
  with Cons.prems(3) have "foldl fadd (Fin (a + x)) vs = Fin t" by simp
  from Cons.IH[OF rest _ this] x Cons.prems(2) show ?case by (auto simp: nonneg_def)
qed

lemma fsum_ge_zero:
  assumes "\<forall>v\<in>set vs. fge v (Fin 0)" and "fsum vs = Fin t"
  shows "(\<forall>v\<in>set vs. nonneg v) \<and> t = sum_list (map fval vs)"
  using foldl_fadd_ge_zero[OF assms(1), of 0 t] assms(2) by (simp add: fsum_def)

text \<open>A sum of finite values from 0 on that stays below the overflow is exact.\<close>

lemma foldl_fadd_Fin:
  assumes "\<forall>x\<in>set xs. 0 \<le> x" and "0 \<le> a" and "a + sum_list xs \<le> 240000"
  shows "foldl fadd (Fin a) (map Fin xs) = Fin (a + sum_list xs)"
  using assms
proof (induction xs arbitrary: a)
  case Nil
  then show ?case by simp
next
  case (Cons x xs)
  from Cons.prems have x: "0 \<le> x" and s: "0 \<le> sum_list xs" by (auto intro: sum_list_nonneg)
  with Cons.prems have "to_float (a + x) = Fin (a + x)" by (intro to_float_bounded) auto
  moreover have "foldl fadd (Fin (a + x)) (map Fin xs) = Fin (a + x + sum_list xs)"
    using Cons.prems x by (intro Cons.IH) (auto simp: add.assoc)
  ultimately show ?case by (simp add: add.assoc)
qed

lemma fsum_Fin:
  assumes "\<forall>x\<in>set xs. 0 \<le> x" and "sum_list xs \<le> 240000"
  shows "fsum (map Fin xs) = Fin (sum_list xs)"
  using foldl_fadd_Fin[OF assms(1), of 0] assms(2) by (simp add: fsum_def)

lemma fsum_zeros:
  assumes "\<forall>d\<in>set cd. f d = Fin 0"
  shows "fsum (map f cd) = Fin 0"
proof -
  from assms have "map f cd = map Fin (map (\<lambda>d. 0) cd)" by (induction cd) auto
  then have "fsum (map f cd) = fsum (map Fin (map (\<lambda>d. 0) cd))" by (rule arg_cong)
  also have "\<dots> = Fin (sum_list (map (\<lambda>d. 0) cd))" by (rule fsum_Fin) simp_all
  also have "sum_list (map (\<lambda>d. 0::real) cd) = 0" by simp
  finally show ?thesis .
qed

lemma member_le_sum_list_real:
  fixes xs :: "real list"
  assumes "\<forall>x\<in>set xs. 0 \<le> x" and "x \<in> set xs"
  shows "x \<le> sum_list xs"
  using assms
proof (induction xs)
  case Nil
  then show ?case by simp
next
  case (Cons y ys)
  then have "0 \<le> y" "0 \<le> sum_list ys" by (auto intro: sum_list_nonneg)
  with Cons show ?case by auto
qed

lemma fdiv_defined: "b \<noteq> Fin 0 \<Longrightarrow> \<exists>v. fdiv a b = Inr v"
  by (cases a; cases b) auto

lemma feq_zero: "feq t (Fin 0) \<longleftrightarrow> t = Fin 0"
  by (cases t) auto

lemma total_data_gb_nonzero: "total_data_gb cd \<noteq> Fin 0"
  by (simp add: total_data_gb_def Let_def feq_zero)

lemma total_iops_nonzero: "total_iops cd \<noteq> Fin 0"
  by (simp add: total_iops_def Let_def feq_zero)

lemma client_share_defined:
  assumes "tdg \<noteq> Fin 0" and "ti \<noteq> Fin 0"
  shows "\<exists>s. client_share pure tdg ti d = Inr s"
proof -
  from fdiv_defined[OF assms(1)] obtain ds where ds: "fdiv (data_gb d) tdg = Inr ds" by blast
  from fdiv_defined[OF assms(2)] obtain iv where iv: "fdiv (client_iops d) ti = Inr iv" by blast
  show ?thesis by (simp add: client_share_def ds iv Let_def split: prod.splits)
qed

lemma client_shares_defined:
  assumes "tdg \<noteq> Fin 0" and "ti \<noteq> Fin 0"
  shows "\<exists>ss. client_shares pure tdg ti cd = Inr ss \<and> list_all2 (share_of pure tdg ti) cd ss"
proof (induction cd)
  case Nil
  then show ?case by simp
next
  case (Cons d cd)
  from client_share_defined[OF assms] obtain s where s: "client_share pure tdg ti d = Inr s"
    by blast
  from Cons.IH obtain ss where "client_shares pure tdg ti cd = Inr ss"
    "list_all2 (share_of pure tdg ti) cd ss" by blast
  moreover from s have "share_of pure tdg ti d s" by (simp add: share_of_def)
  ultimately show ?case using s by simp
qed

lemma cost_shares_defined:
  "\<exists>ss. cost_shares pure cd = Inr ss \<and>
     list_all2 (share_of pure (total_data_gb cd) (total_iops cd)) cd ss"
  unfolding cost_shares_def
  by (rule client_shares_defined[OF total_data_gb_nonzero total_iops_nonzero])

lemma list_all2_map_eq:
  assumes "list_all2 R xs ys" and "\<And>x y. x \<in> set xs \<Longrightarrow> R x y \<Longrightarrow> g y = h x"
  shows "map g ys = map h xs"
  using assms by (induction rule: list_all2_induct) auto

lemma share_of_data_share:
  "share_of pure tdg ti d s \<Longrightarrow> fdiv (data_gb d) tdg = Inr (data_share s)"
  by (auto simp: share_of_def client_share_def Let_def split: sum.splits)

lemma share_of_iops_share:
  "share_of pure tdg ti d s \<Longrightarrow> fdiv (client_iops d) ti = Inr (iops_share s)"
  by (auto simp: share_of_def client_share_def Let_def split: sum.splits)

lemma share_of_pure:
  "share_of True tdg ti d s \<Longrightarrow> weighted_share s = data_share s"
  by (auto simp: share_of_def client_share_def Let_def split: sum.splits)

lemma share_of_blended:
  "share_of False tdg ti d s \<Longrightarrow>
   weighted_share s =
     (if takes_heavy_weights d
      then fadd (fmul (data_share s) HEAVY_DATA_WEIGHT) (fmul (iops_share s) HEAVY_IOPS_WEIGHT)
      else fadd (fmul (data_share s) DEFAULT_DATA_WEIGHT) (fmul (iops_share s) DEFAULT_IOPS_WEIGHT))"
  by (auto simp: share_of_def client_share_def takes_heavy_weights_def Let_def split: sum.splits)

lemma share_of_monthly_cost:
  "share_of pure tdg ti d s \<Longrightarrow> monthly_cost s = fmul (weighted_share s) TOTAL_CLUSTER_COST"
  by (auto simp: share_of_def client_share_def Let_def split: sum.splits)

lemma sum_list_divide: "sum_list (map (\<lambda>x. f x / (c::real)) xs) = sum_list (map f xs) / c"
  by (induction xs) (simp_all add: add_divide_distrib)

lemmas share_eval = cost_shares_def total_data_gb_def total_iops_def fsum_def client_share_def
  client_iops_def TOTAL_CLUSTER_COST_def HEAVY_IOPS_CLIENTS_def IOPS_THRESHOLD_def
  HEAVY_DATA_WEIGHT_def HEAVY_IOPS_WEIGHT_def DEFAULT_DATA_WEIGHT_def DEFAULT_IOPS_WEIGHT_def
  to_float_moderate

text \<open>
  The total of values from 0 on, when it is finite and not 0: it is positive, every
  value is finite, and every value is a share between 0 and 1 of it.
\<close>

lemma finite_total:
  assumes ge: "\<forall>d\<in>set cd. fge (f d) (Fin 0)"
    and fin: "finite_float (fsum (map f cd))" and nz: "fsum (map f cd) \<noteq> Fin 0"
  shows "fsum (map f cd) = Fin (sum_list (map (\<lambda>d. fval (f d)) cd))"
    and "0 < sum_list (map (\<lambda>d. fval (f d)) cd)"
    and "\<forall>d\<in>set cd. f d = Fin (fval (f d)) \<and> 0 \<le> fval (f d) \<and>
           fval (f d) \<le> sum_list (map (\<lambda>d. fval (f d)) cd)"
proof -
  from fin obtain t where t: "fsum (map f cd) = Fin t" by (auto simp: finite_float_def)
  from ge have "\<forall>v\<in>set (map f cd). fge v (Fin 0)" by simp
  from fsum_ge_zero[OF this t] have all: "\<forall>d\<in>set cd. nonneg (f d)"
    and sum: "t = sum_list (map (\<lambda>d. fval (f d)) cd)"
    by (simp_all add: comp_def)
  from t sum show a: "fsum (map f cd) = Fin (sum_list (map (\<lambda>d. fval (f d)) cd))" by simp
  from all have val: "\<forall>d\<in>set cd. f d = Fin (fval (f d)) \<and> 0 \<le> fval (f d)"
    by (auto simp: nonneg_def)
  then have nn: "\<forall>x\<in>set (map (\<lambda>d. fval (f d)) cd). 0 \<le> x" by simp
  then have "0 \<le> sum_list (map (\<lambda>d. fval (f d)) cd)" by (auto intro!: sum_list_nonneg)
  moreover from nz a have "sum_list (map (\<lambda>d. fval (f d)) cd) \<noteq> 0" by auto
  ultimately show "0 < sum_list (map (\<lambda>d. fval (f d)) cd)" by simp
  show "\<forall>d\<in>set cd. f d = Fin (fval (f d)) \<and> 0 \<le> fval (f d) \<and>
           fval (f d) \<le> sum_list (map (\<lambda>d. fval (f d)) cd)"
  proof
    fix d assume d: "d \<in> set cd"
    then have "fval (f d) \<in> set (map (\<lambda>d. fval (f d)) cd)" by simp
    from member_le_sum_list_real[OF nn this] val d
    show "f d = Fin (fval (f d)) \<and> 0 \<le> fval (f d) \<and>
           fval (f d) \<le> sum_list (map (\<lambda>d. fval (f d)) cd)" by simp
  qed
qed

lemma total_data_gb_finite:
  assumes "fsum (map data_gb cd) = Fin t" and "t \<noteq> 0"
  shows "total_data_gb cd = Fin t"
  using assms by (simp add: total_data_gb_def)

lemma total_iops_finite:
  assumes "fsum (map client_iops cd) = Fin t" and "t \<noteq> 0"
  shows "total_iops cd = Fin t"
  using assms by (simp add: total_iops_def)

lemma unit_share:
  fixes g T :: real
  assumes "0 \<le> g" and "g \<le> T" and "0 < T"
  shows "0 \<le> g / T" and "g / T \<le> 1"
  using assms by simp_all

lemma scaled_share:
  assumes "0 \<le> q" and "q \<le> 1"
  shows "to_float (q * 240000) = Fin (q * 240000)"
proof (rule to_float_bounded)
  from assms(1) show "0 \<le> q * 240000" by simp
  from assms(2) have "q * 240000 \<le> 1 * 240000" by (rule mult_right_mono) simp
  then show "q * 240000 \<le> 240000" by simp
qed

lemma fdiv_share:
  assumes "0 \<le> g" and "g \<le> T" and "0 < T"
  shows "fdiv (Fin g) (Fin T) = Inr (Fin (g / T))"
proof -
  from unit_share[OF assms] have "to_float (g / T) = Fin (g / T)"
    by (intro to_float_bounded) simp_all
  with assms(3) show ?thesis by simp
qed

lemma shares_sum:
  assumes "list_all2 R cd ss"
    and "\<And>d s. d \<in> set cd \<Longrightarrow> R d s \<Longrightarrow>
           weighted_share s = Fin (w d) \<and> monthly_cost s = Fin (w d * 240000)"
    and "\<And>d. d \<in> set cd \<Longrightarrow> 0 \<le> w d"
    and "sum_list (map w cd) = 1"
  shows "fsum (map weighted_share ss) = Fin 1 \<and> fsum (map monthly_cost ss) = Fin 240000"
proof -
  have "map weighted_share ss = map (\<lambda>d. Fin (w d)) cd"
    using assms(1) by (rule list_all2_map_eq) (simp add: assms(2))
  then have "map weighted_share ss = map Fin (map w cd)" by simp
  then have "fsum (map weighted_share ss) = fsum (map Fin (map w cd))" by (rule arg_cong)
  also have "\<dots> = Fin (sum_list (map w cd))"
    by (rule fsum_Fin) (simp_all add: assms(3,4))
  finally have a: "fsum (map weighted_share ss) = Fin 1" by (simp add: assms(4))
  have c: "sum_list (map (\<lambda>d. w d * 240000) cd) = sum_list (map w cd) * 240000"
    by (rule sum_list_mult_const)
  have "map monthly_cost ss = map (\<lambda>d. Fin (w d * 240000)) cd"
    using assms(1) by (rule list_all2_map_eq) (simp add: assms(2))
  then have "map monthly_cost ss = map Fin (map (\<lambda>d. w d * 240000) cd)" by simp
  then have "fsum (map monthly_cost ss) = fsum (map Fin (map (\<lambda>d. w d * 240000) cd))"
    by (rule arg_cong)
  also have "\<dots> = Fin (sum_list (map (\<lambda>d. w d * 240000) cd))"
    by (rule fsum_Fin) (simp_all add: assms(3) c assms(4))
  finally have "fsum (map monthly_cost ss) = Fin 240000" by (simp add: c assms(4))
  with a show ?thesis by simp
qed

lemma pure_shares_sum:
  assumes ge: "\<forall>d\<in>set cd. fge (data_gb d) (Fin 0)"
    and fin: "finite_float (fsum (map data_gb cd))"
    and nz: "fsum (map data_gb cd) \<noteq> Fin 0"
    and ss: "list_all2 (share_of True (total_data_gb cd) (total_iops cd)) cd ss"
  shows "fsum (map weighted_share ss) = Fin 1 \<and> fsum (map monthly_cost ss) = Fin 240000"
proof -
  define T where "T = sum_list (map (\<lambda>d. fval (data_gb d)) cd)"
  note ft = finite_total[OF ge fin nz, folded T_def]
  have T: "total_data_gb cd = Fin T" "0 < T"
    using ft(1,2) total_data_gb_finite[of cd T] by simp_all
  show ?thesis using ss
  proof (rule shares_sum)
    fix d s
    assume d: "d \<in> set cd" and s: "share_of True (total_data_gb cd) (total_iops cd) d s"
    from d ft(3) have g: "data_gb d = Fin (fval (data_gb d))"
      "0 \<le> fval (data_gb d)" "fval (data_gb d) \<le> T" by blast+
    from share_of_data_share[OF s] fdiv_share[OF g(2,3) T(2)]
    have ds: "data_share s = Fin (fval (data_gb d) / T)"
      by (subst (asm) g(1)) (simp add: T(1))
    have "to_float (fval (data_gb d) / T * 240000) = Fin (fval (data_gb d) / T * 240000)"
      using unit_share[OF g(2,3) T(2)] by (rule scaled_share)
    with share_of_pure[OF s] share_of_monthly_cost[OF s] ds
    show "weighted_share s = Fin (fval (data_gb d) / T) \<and>
          monthly_cost s = Fin (fval (data_gb d) / T * 240000)"
      by (simp add: TOTAL_CLUSTER_COST_def)
  next
    fix d assume "d \<in> set cd"
    with ft(3) T(2) show "0 \<le> fval (data_gb d) / T" by simp
  next
    show "(\<Sum>d\<leftarrow>cd. fval (data_gb d) / T) = 1"
      using T(2) by (simp add: sum_list_divide T_def)
  qed
qed

lemma client_iops_ge_zero:
  assumes "fge (avg_read_ops_s d) (Fin 0)" and "fge (avg_write_ops_s d) (Fin 0)"
  shows "fge (client_iops d) (Fin 0)"
  using assms
  by (cases "avg_read_ops_s d"; cases "avg_write_ops_s d")
     (auto simp: client_iops_def intro: fge_zero_to_float)

lemma blended_weights:
  fixes a b dw iw :: real
  assumes "0 \<le> a" "a \<le> 1" "0 \<le> b" "b \<le> 1"
    and "dw = 1 / 4 \<and> iw = 3 / 4 \<or> dw = 1 / 2 \<and> iw = 1 / 2"
  shows "fadd (fmul (Fin a) (Fin dw)) (fmul (Fin b) (Fin iw)) = Fin (a * dw + b * iw)"
    and "fmul (Fin (a * dw + b * iw)) (Fin 240000) = Fin ((a * dw + b * iw) * 240000)"
    and "0 \<le> a * dw + b * iw"
proof -
  from assms have w: "0 \<le> dw" "dw \<le> 1" "0 \<le> iw" "iw \<le> 1" "dw + iw = 1" by auto
  from assms(1,2) w(1,2) have x: "0 \<le> a * dw" "a * dw \<le> 1"
    by (simp_all add: mult_le_one)
  from assms(3,4) w(3,4) have y: "0 \<le> b * iw" "b * iw \<le> 1"
    by (simp_all add: mult_le_one)
  have x': "to_float (a * dw) = Fin (a * dw)" using x by (intro to_float_bounded) simp_all
  have y': "to_float (b * iw) = Fin (b * iw)" using y by (intro to_float_bounded) simp_all
  have z': "to_float (a * dw + b * iw) = Fin (a * dw + b * iw)"
    using x y by (intro to_float_bounded) simp_all
  show "fadd (fmul (Fin a) (Fin dw)) (fmul (Fin b) (Fin iw)) = Fin (a * dw + b * iw)"
    by (simp add: x' y' z')
  from assms(2) w(1) have "a * dw \<le> 1 * dw" by (rule mult_right_mono)
  moreover from assms(4) w(3) have "b * iw \<le> 1 * iw" by (rule mult_right_mono)
  ultimately have le: "a * dw + b * iw \<le> 1" using w(5) by simp
  have "to_float ((a * dw + b * iw) * 240000) = Fin ((a * dw + b * iw) * 240000)"
    using x(1) y(1) le by (intro scaled_share) simp_all
  then show "fmul (Fin (a * dw + b * iw)) (Fin 240000) = Fin ((a * dw + b * iw) * 240000)"
    by simp
  show "0 \<le> a * dw + b * iw" using x y by simp
qed

lemma blended_shares_sum:
  assumes ge: "\<forall>d\<in>set cd. fge (data_gb d) (Fin 0)"
    and fin: "finite_float (fsum (map data_gb cd))"
    and nz: "fsum (map data_gb cd) \<noteq> Fin 0"
    and ge2: "\<forall>d\<in>set cd. fge (avg_read_ops_s d) (Fin 0) \<and> fge (avg_write_ops_s d) (Fin 0)"
    and fin2: "finite_float (fsum (map client_iops cd))"
    and nz2: "fsum (map client_iops cd) \<noteq> Fin 0"
    and same: "\<forall>d\<in>set cd. \<forall>d'\<in>set cd. takes_heavy_weights d = takes_heavy_weights d'"
    and ss: "list_all2 (share_of False (total_data_gb cd) (total_iops cd)) cd ss"
  shows "fsum (map weighted_share ss) = Fin 1 \<and> fsum (map monthly_cost ss) = Fin 240000"
proof -
  define T where "T = sum_list (map (\<lambda>d. fval (data_gb d)) cd)"
  define U where "U = sum_list (map (\<lambda>d. fval (client_iops d)) cd)"
  have ge3: "\<forall>d\<in>set cd. fge (client_iops d) (Fin 0)"
    using ge2 by (auto intro: client_iops_ge_zero)
  note ft = finite_total[OF ge fin nz, folded T_def]
  note fu = finite_total[OF ge3 fin2 nz2, folded U_def]
  have T: "total_data_gb cd = Fin T" "0 < T"
    using ft(1,2) total_data_gb_finite[of cd T] by simp_all
  have U: "total_iops cd = Fin U" "0 < U"
    using fu(1,2) total_iops_finite[of cd U] by simp_all
  from nz have "cd \<noteq> []" by (auto simp: fsum_def)
  then obtain d0 where d0: "d0 \<in> set cd" by (cases cd) auto
  define dw :: real where "dw = (if takes_heavy_weights d0 then 1 / 4 else 1 / 2)"
  define iw :: real where "iw = (if takes_heavy_weights d0 then 3 / 4 else 1 / 2)"
  have w: "dw = 1 / 4 \<and> iw = 3 / 4 \<or> dw = 1 / 2 \<and> iw = 1 / 2" by (simp add: dw_def iw_def)
  then have one: "dw + iw = 1" by auto
  show ?thesis using ss
  proof (rule shares_sum)
    fix d s
    assume d: "d \<in> set cd" and s: "share_of False (total_data_gb cd) (total_iops cd) d s"
    from d ft(3) have g: "data_gb d = Fin (fval (data_gb d))"
      "0 \<le> fval (data_gb d)" "fval (data_gb d) \<le> T" by blast+
    from d fu(3) have o: "client_iops d = Fin (fval (client_iops d))"
      "0 \<le> fval (client_iops d)" "fval (client_iops d) \<le> U" by blast+
    from share_of_data_share[OF s] fdiv_share[OF g(2,3) T(2)]
    have ds: "data_share s = Fin (fval (data_gb d) / T)"
      by (subst (asm) g(1)) (simp add: T(1))
    from share_of_iops_share[OF s] fdiv_share[OF o(2,3) U(2)]
    have ish: "iops_share s = Fin (fval (client_iops d) / U)"
      by (subst (asm) o(1)) (simp add: U(1))
    from d d0 same have h: "takes_heavy_weights d = takes_heavy_weights d0" by blast
    note bw = blended_weights[OF unit_share[OF g(2,3) T(2)] unit_share[OF o(2,3) U(2)] w]
    have "weighted_share s =
         fadd (fmul (Fin (fval (data_gb d) / T)) (Fin dw))
              (fmul (Fin (fval (client_iops d) / U)) (Fin iw))"
    proof (cases "takes_heavy_weights d0")
      case True
      with share_of_blended[OF s] h have "weighted_share s =
          fadd (fmul (data_share s) HEAVY_DATA_WEIGHT) (fmul (iops_share s) HEAVY_IOPS_WEIGHT)"
        by simp
      moreover from True have "dw = 1 / 4" "iw = 3 / 4" by (simp_all add: dw_def iw_def)
      ultimately show ?thesis
        by (simp only: ds ish HEAVY_DATA_WEIGHT_def HEAVY_IOPS_WEIGHT_def)
    next
      case False
      with share_of_blended[OF s] h have "weighted_share s =
          fadd (fmul (data_share s) DEFAULT_DATA_WEIGHT) (fmul (iops_share s) DEFAULT_IOPS_WEIGHT)"
        by simp
      moreover from False have "dw = 1 / 2" "iw = 1 / 2" by (simp_all add: dw_def iw_def)
      ultimately show ?thesis
        by (simp only: ds ish DEFAULT_DATA_WEIGHT_def DEFAULT_IOPS_WEIGHT_def)
    qed
    with bw(1) have ws:
      "weighted_share s = Fin (fval (data_gb d) / T * dw + fval (client_iops d) / U * iw)"
      by simp
    with share_of_monthly_cost[OF s] bw(2)
    show "weighted_share s = Fin (fval (data_gb d) / T * dw + fval (client_iops d) / U * iw) \<and>
          monthly_cost s = Fin ((fval (data_gb d) / T * dw + fval (client_iops d) / U * iw) * 240000)"
      by (simp add: TOTAL_CLUSTER_COST_def)
  next
    fix d assume d: "d \<in> set cd"
    from d ft(3) have g: "0 \<le> fval (data_gb d)" "fval (data_gb d) \<le> T" by blast+
    from d fu(3) have o: "0 \<le> fval (client_iops d)" "fval (client_iops d) \<le> U" by blast+
    from blended_weights(3)[OF unit_share[OF g T(2)] unit_share[OF o U(2)] w]
    show "0 \<le> fval (data_gb d) / T * dw + fval (client_iops d) / U * iw" .
  next
    have "(\<Sum>d\<leftarrow>cd. fval (data_gb d) / T * dw + fval (client_iops d) / U * iw) =
          (\<Sum>d\<leftarrow>cd. fval (data_gb d) / T * dw) + (\<Sum>d\<leftarrow>cd. fval (client_iops d) / U * iw)"
      by (rule sum_list_addf)
    also have "(\<Sum>d\<leftarrow>cd. fval (data_gb d) / T * dw) = (\<Sum>d\<leftarrow>cd. fval (data_gb d) / T) * dw"
      by (rule sum_list_mult_const)
    also have "(\<Sum>d\<leftarrow>cd. fval (client_iops d) / U * iw) = (\<Sum>d\<leftarrow>cd. fval (client_iops d) / U) * iw"
      by (rule sum_list_mult_const)
    also have "(\<Sum>d\<leftarrow>cd. fval (data_gb d) / T) = 1" using T(2) by (simp add: sum_list_divide T_def)
    also have "(\<Sum>d\<leftarrow>cd. fval (client_iops d) / U) = 1" using U(2) by (simp add: sum_list_divide U_def)
    finally show "(\<Sum>d\<leftarrow>cd. fval (data_gb d) / T * dw + fval (client_iops d) / U * iw) = 1"
      using one by simp
  qed
qed

section \<open>The claims\<close>

text \<open>
  Claim C1 (exactly one record per client, whichever row comes first). The input loop on
  the two lines of the specification's scenario: with the throughput row first, the size
  row that follows is appended without a search, and "acme" ends with two records, one with
  the rates and no size, one with the size and no rates. With the size row first the
  throughput row finds the record and the result is the single merged record.
\<close>

theorem size_row_after_throughput_row:
  "read_input [''acme'' @ [CHR 0x09] @ ''900.0'' @ [CHR 0x09] @ ''100.0'' @ [CHR 0x09] @ ''90%''
                 @ [CHR 0x09] @ ''10%'',
               ''acme'' @ [CHR 0x09] @ ''1.00 TB'' @ [CHR 0x09] @ ''1.20 TB'' @ [CHR 0x09]
                 @ ''5.00%''] =
     Inr [\<lparr>client = ''acme'', data_gb = Fin 0, avg_read_ops_s = Fin 900,
            avg_write_ops_s = Fin 100\<rparr>,
          \<lparr>client = ''acme'', data_gb = Fin 1228.8, avg_read_ops_s = Fin 0,
            avg_write_ops_s = Fin 0\<rparr>] \<and>
   read_input [''acme'' @ [CHR 0x09] @ ''1.00 TB'' @ [CHR 0x09] @ ''1.20 TB'' @ [CHR 0x09]
                 @ ''5.00%'',
               ''acme'' @ [CHR 0x09] @ ''900.0'' @ [CHR 0x09] @ ''100.0'' @ [CHR 0x09] @ ''90%''
                 @ [CHR 0x09] @ ''10%''] =
     Inr [\<lparr>client = ''acme'', data_gb = Fin 1228.8, avg_read_ops_s = Fin 900,
            avg_write_ops_s = Fin 100\<rparr>]"
  by (simp add: read_eval parse_eval)

text \<open>
  Claim C2 (\<open>parse_data_size\<close> never raises). The leading literal of "1.2.3 GB" is "1.2.3",
  which \<^verbatim>\<open>float\<close> refuses: \<open>parse_data_size\<close> raises \<^verbatim>\<open>ValueError\<close>, and so it does on ".";
  a size row with such a field aborts the input loop.
\<close>

theorem parse_data_size_raises:
  "parse_data_size ''1.2.3 GB'' = Inl ValueError \<and>
   re_match_number (lower (strip ''1.2.3 GB'')) = Some ''1.2.3'' \<and>
   py_float ''1.2.3'' = Inl ValueError \<and>
   parse_data_size ''.'' = Inl ValueError \<and>
   read_input [''acme  1.00 TB  1.2.3 GB  5.00%''] = Inl ValueError"
  by (simp add: read_eval parse_eval)

text \<open>
  Claim C3, as amended. Let every \<open>data_gb\<close> be at least 0 and let their total, as \<^verbatim>\<open>sum\<close>
  computes it, be finite (no overflow) and not 0. Under the pure-size policy the weighted
  shares add up to 1 and the monthly costs to \<open>TOTAL_CLUSTER_COST\<close>. Under the blended
  policy the same holds when moreover both rates of every client are at least 0, the total
  of the rates is finite and not 0, and all clients take the same pair of weights. (The
  sums are exact here; on binary64 values they hold up to rounding.)
\<close>

theorem shares_sum_to_one:
  "(\<forall>d\<in>set cd. fge (data_gb d) (Fin 0)) \<and>
   finite_float (fsum (map data_gb cd)) \<and> fsum (map data_gb cd) \<noteq> Fin 0 \<and>
   (pure \<or>
    (\<forall>d\<in>set cd. fge (avg_read_ops_s d) (Fin 0) \<and> fge (avg_write_ops_s d) (Fin 0)) \<and>
    finite_float (fsum (map client_iops cd)) \<and> fsum (map client_iops cd) \<noteq> Fin 0 \<and>
    (\<forall>d\<in>set cd. \<forall>d'\<in>set cd. takes_heavy_weights d = takes_heavy_weights d')) \<longrightarrow>
   (\<exists>ss. cost_shares pure cd = Inr ss \<and> length ss = length cd \<and>
      fsum (map weighted_share ss) = Fin 1 \<and>
      fsum (map monthly_cost ss) = TOTAL_CLUSTER_COST)"
proof (intro impI, elim conjE)
  assume ge: "\<forall>d\<in>set cd. fge (data_gb d) (Fin 0)"
    and fin: "finite_float (fsum (map data_gb cd))"
    and nz: "fsum (map data_gb cd) \<noteq> Fin 0"
    and rest: "pure \<or>
      (\<forall>d\<in>set cd. fge (avg_read_ops_s d) (Fin 0) \<and> fge (avg_write_ops_s d) (Fin 0)) \<and>
      finite_float (fsum (map client_iops cd)) \<and> fsum (map client_iops cd) \<noteq> Fin 0 \<and>
      (\<forall>d\<in>set cd. \<forall>d'\<in>set cd. takes_heavy_weights d = takes_heavy_weights d')"
  from cost_shares_defined[of pure cd] obtain ss where
    ss: "cost_shares pure cd = Inr ss"
      "list_all2 (share_of pure (total_data_gb cd) (total_iops cd)) cd ss"
    by blast
  have "fsum (map weighted_share ss) = Fin 1 \<and> fsum (map monthly_cost ss) = Fin 240000"
  proof (cases pure)
    case True
    with ss(2) have "list_all2 (share_of True (total_data_gb cd) (total_iops cd)) cd ss"
      by simp
    with ge fin nz show ?thesis by (rule pure_shares_sum)
  next
    case False
    with rest have ge2: "\<forall>d\<in>set cd. fge (avg_read_ops_s d) (Fin 0) \<and> fge (avg_write_ops_s d) (Fin 0)"
      and fin2: "finite_float (fsum (map client_iops cd))"
      and nz2: "fsum (map client_iops cd) \<noteq> Fin 0"
      and same: "\<forall>d\<in>set cd. \<forall>d'\<in>set cd. takes_heavy_weights d = takes_heavy_weights d'"
      by blast+
    from False ss(2) have "list_all2 (share_of False (total_data_gb cd) (total_iops cd)) cd ss"
      by simp
    with ge fin nz ge2 fin2 nz2 same show ?thesis by (rule blended_shares_sum)
  qed
  with ss list_all2_lengthD[OF ss(2)] show
    "\<exists>ss. cost_shares pure cd = Inr ss \<and> length ss = length cd \<and>
      fsum (map weighted_share ss) = Fin 1 \<and>
      fsum (map monthly_cost ss) = TOTAL_CLUSTER_COST"
    by (simp add: TOTAL_CLUSTER_COST_def)
qed

text \<open>C3 at two clients with the default weights, under the blended and the pure-size policy.\<close>

theorem shares_sum_to_one_witness:
  "list_all (\<lambda>d. fge (data_gb d) (Fin 0) \<and> fge (avg_read_ops_s d) (Fin 0) \<and>
      fge (avg_write_ops_s d) (Fin 0) \<and> \<not> takes_heavy_weights d)
     [\<lparr>client = ''a'', data_gb = Fin 100, avg_read_ops_s = Fin 30, avg_write_ops_s = Fin 0\<rparr>,
      \<lparr>client = ''b'', data_gb = Fin 300, avg_read_ops_s = Fin 20, avg_write_ops_s = Fin 10\<rparr>] \<and>
   fsum (map data_gb
     [\<lparr>client = ''a'', data_gb = Fin 100, avg_read_ops_s = Fin 30, avg_write_ops_s = Fin 0\<rparr>,
      \<lparr>client = ''b'', data_gb = Fin 300, avg_read_ops_s = Fin 20, avg_write_ops_s = Fin 10\<rparr>])
     = Fin 400 \<and>
   fsum (map client_iops
     [\<lparr>client = ''a'', data_gb = Fin 100, avg_read_ops_s = Fin 30, avg_write_ops_s = Fin 0\<rparr>,
      \<lparr>client = ''b'', data_gb = Fin 300, avg_read_ops_s = Fin 20, avg_write_ops_s = Fin 10\<rparr>])
     = Fin 60 \<and>
   cost_shares False
     [\<lparr>client = ''a'', data_gb = Fin 100, avg_read_ops_s = Fin 30, avg_write_ops_s = Fin 0\<rparr>,
      \<lparr>client = ''b'', data_gb = Fin 300, avg_read_ops_s = Fin 20, avg_write_ops_s = Fin 10\<rparr>]
     = Inr [\<lparr>share_client = ''a'', data_share = Fin (1 / 4), iops_share = Fin (1 / 2),
              weighted_share = Fin (3 / 8), monthly_cost = Fin 90000\<rparr>,
            \<lparr>share_client = ''b'', data_share = Fin (3 / 4), iops_share = Fin (1 / 2),
              weighted_share = Fin (5 / 8), monthly_cost = Fin 150000\<rparr>] \<and>
   fsum [Fin (3 / 8), Fin (5 / 8)] = Fin 1 \<and>
   fsum [Fin 90000, Fin 150000] = TOTAL_CLUSTER_COST \<and>
   cost_shares True
     [\<lparr>client = ''a'', data_gb = Fin 100, avg_read_ops_s = Fin 30, avg_write_ops_s = Fin 0\<rparr>,
      \<lparr>client = ''b'', data_gb = Fin 300, avg_read_ops_s = Fin 20, avg_write_ops_s = Fin 10\<rparr>]
     = Inr [\<lparr>share_client = ''a'', data_share = Fin (1 / 4), iops_share = Fin (1 / 2),
              weighted_share = Fin (1 / 4), monthly_cost = Fin 60000\<rparr>,
            \<lparr>share_client = ''b'', data_share = Fin (3 / 4), iops_share = Fin (1 / 2),
              weighted_share = Fin (3 / 4), monthly_cost = Fin 180000\<rparr>] \<and>
   fsum [Fin (1 / 4), Fin (3 / 4)] = Fin 1 \<and>
   fsum [Fin 60000, Fin 180000] = TOTAL_CLUSTER_COST"
proof -
  let ?cd = "[\<lparr>client = ''a'', data_gb = Fin 100, avg_read_ops_s = Fin 30, avg_write_ops_s = Fin 0\<rparr>,
      \<lparr>client = ''b'', data_gb = Fin 300, avg_read_ops_s = Fin 20, avg_write_ops_s = Fin 10\<rparr>]"
  let ?ss = "[\<lparr>share_client = ''a'', data_share = Fin (1 / 4), iops_share = Fin (1 / 2),
              weighted_share = Fin (3 / 8), monthly_cost = Fin 90000\<rparr>,
            \<lparr>share_client = ''b'', data_share = Fin (3 / 4), iops_share = Fin (1 / 2),
              weighted_share = Fin (5 / 8), monthly_cost = Fin 150000\<rparr>]"
  let ?ps = "[\<lparr>share_client = ''a'', data_share = Fin (1 / 4), iops_share = Fin (1 / 2),
              weighted_share = Fin (1 / 4), monthly_cost = Fin 60000\<rparr>,
            \<lparr>share_client = ''b'', data_share = Fin (3 / 4), iops_share = Fin (1 / 2),
              weighted_share = Fin (3 / 4), monthly_cost = Fin 180000\<rparr>]"
  have h1: "list_all (\<lambda>d. fge (data_gb d) (Fin 0) \<and> fge (avg_read_ops_s d) (Fin 0) \<and>
      fge (avg_write_ops_s d) (Fin 0) \<and> \<not> takes_heavy_weights d) ?cd"
    by (simp add: takes_heavy_weights_def client_iops_def
        HEAVY_IOPS_CLIENTS_def IOPS_THRESHOLD_def to_float_def float_overflow_def)
  have h2: "fsum (map data_gb ?cd) = Fin 400"
    by (simp add: fsum_def to_float_def float_overflow_def)
  have h3: "fsum (map client_iops ?cd) = Fin 60"
    by (simp add: fsum_def client_iops_def to_float_moderate)
  have e: "cost_shares False ?cd = Inr ?ss"
    by (simp add: share_eval Let_def)
  have e': "cost_shares True ?cd = Inr ?ps"
    by (simp add: share_eval Let_def)
  from h1 have a: "\<forall>d\<in>set ?cd. fge (data_gb d) (Fin 0)"
    and b: "\<forall>d\<in>set ?cd. fge (avg_read_ops_s d) (Fin 0) \<and> fge (avg_write_ops_s d) (Fin 0)"
    and c: "\<forall>d\<in>set ?cd. \<forall>d'\<in>set ?cd. takes_heavy_weights d = takes_heavy_weights d'"
    by simp_all
  from h2 have d: "finite_float (fsum (map data_gb ?cd))" "fsum (map data_gb ?cd) \<noteq> Fin 0"
    by (simp_all add: finite_float_def)
  from h3 have f: "finite_float (fsum (map client_iops ?cd))"
    "fsum (map client_iops ?cd) \<noteq> Fin 0"
    by (simp_all add: finite_float_def)
  from shares_sum_to_one[of ?cd False] a b c d f obtain ss where
    "cost_shares False ?cd = Inr ss" "fsum (map weighted_share ss) = Fin 1"
    "fsum (map monthly_cost ss) = TOTAL_CLUSTER_COST"
    by blast
  with e have "fsum (map weighted_share ?ss) = Fin 1"
    "fsum (map monthly_cost ?ss) = TOTAL_CLUSTER_COST" by simp_all
  then have blended: "fsum [Fin (3 / 8), Fin (5 / 8)] = Fin 1 \<and>
     fsum [Fin 90000, Fin 150000] = TOTAL_CLUSTER_COST" by simp
  from shares_sum_to_one[of ?cd True] a d obtain ps where
    "cost_shares True ?cd = Inr ps" "fsum (map weighted_share ps) = Fin 1"
    "fsum (map monthly_cost ps) = TOTAL_CLUSTER_COST"
    by blast
  with e' have "fsum (map weighted_share ?ps) = Fin 1"
    "fsum (map monthly_cost ?ps) = TOTAL_CLUSTER_COST" by simp_all
  then have pure: "fsum [Fin (1 / 4), Fin (3 / 4)] = Fin 1 \<and>
     fsum [Fin 60000, Fin 180000] = TOTAL_CLUSTER_COST" by simp
  from h1 h2 h3 e e' blended pure show ?thesis by blast
qed

text \<open>
  Claim C3 as stated fails. Under the pure-size policy one client without data gets the
  share 0, so the shares add up to 0; two clients of \<open>10 ^ 308\<close> gigabytes each have an
  infinite total and get the share 0 each. Under the blended policy a client above the
  IOPS threshold and one below it get the shares 7/8 and 1/4, which add up to 9/8, and the
  costs add up to 270000; two clients without any operations get the shares 1/4 and 1/4.
\<close>

theorem shares_sum_counterexample:
  "cost_shares True
     [\<lparr>client = ''a'', data_gb = Fin 0, avg_read_ops_s = Fin 10, avg_write_ops_s = Fin 5\<rparr>]
     = Inr [\<lparr>share_client = ''a'', data_share = Fin 0, iops_share = Fin 1,
              weighted_share = Fin 0, monthly_cost = Fin 0\<rparr>] \<and>
   fsum [Fin 0] = Fin 0 \<and>
   cost_shares False
     [\<lparr>client = ''a'', data_gb = Fin 100, avg_read_ops_s = Fin 5000, avg_write_ops_s = Fin 0\<rparr>,
      \<lparr>client = ''b'', data_gb = Fin 100, avg_read_ops_s = Fin 0, avg_write_ops_s = Fin 0\<rparr>]
     = Inr [\<lparr>share_client = ''a'', data_share = Fin (1 / 2), iops_share = Fin 1,
              weighted_share = Fin (7 / 8), monthly_cost = Fin 210000\<rparr>,
            \<lparr>share_client = ''b'', data_share = Fin (1 / 2), iops_share = Fin 0,
              weighted_share = Fin (1 / 4), monthly_cost = Fin 60000\<rparr>] \<and>
   fsum [Fin (7 / 8), Fin (1 / 4)] = Fin (9 / 8) \<and>
   fsum [Fin 210000, Fin 60000] = Fin 270000 \<and>
   cost_shares False
     [\<lparr>client = ''a'', data_gb = Fin 100, avg_read_ops_s = Fin 0, avg_write_ops_s = Fin 0\<rparr>,
      \<lparr>client = ''b'', data_gb = Fin 100, avg_read_ops_s = Fin 0, avg_write_ops_s = Fin 0\<rparr>]
     = Inr [\<lparr>share_client = ''a'', data_share = Fin (1 / 2), iops_share = Fin 0,
              weighted_share = Fin (1 / 4), monthly_cost = Fin 60000\<rparr>,
            \<lparr>share_client = ''b'', data_share = Fin (1 / 2), iops_share = Fin 0,
              weighted_share = Fin (1 / 4), monthly_cost = Fin 60000\<rparr>] \<and>
   fsum [Fin (1 / 4), Fin (1 / 4)] = Fin (1 / 2) \<and>
   fsum [Fin (10 ^ 308), Fin (10 ^ 308)] = PInf \<and>
   cost_shares True
     [\<lparr>client = ''a'', data_gb = Fin (10 ^ 308), avg_read_ops_s = Fin 0, avg_write_ops_s = Fin 0\<rparr>,
      \<lparr>client = ''b'', data_gb = Fin (10 ^ 308), avg_read_ops_s = Fin 0, avg_write_ops_s = Fin 0\<rparr>]
     = Inr [\<lparr>share_client = ''a'', data_share = Fin 0, iops_share = Fin 0,
              weighted_share = Fin 0, monthly_cost = Fin 0\<rparr>,
            \<lparr>share_client = ''b'', data_share = Fin 0, iops_share = Fin 0,
              weighted_share = Fin 0, monthly_cost = Fin 0\<rparr>] \<and>
   fsum [Fin 0, Fin 0] = Fin 0 \<and>
   Fin 0 \<noteq> Fin 1 \<and> Fin (9 / 8) \<noteq> Fin 1 \<and> Fin (1 / 2) \<noteq> Fin 1 \<and>
   Fin 270000 \<noteq> TOTAL_CLUSTER_COST"
  by (simp add: share_eval Let_def to_float_def float_overflow_def)

text \<open>
  Claim C4, as amended. In every record set the input loop returns, \<open>data_gb\<close> of every
  record is at least 0 (infinite when the literal is too large for a float). Each rate of
  a record is 0.0 or what \<open>parse_float_maybe\<close> reads in the read (write) field of a
  throughput row of that record's client; what it reads is at least 0 or NaN unless the
  field holds a minus sign. So a rate of a record is at least 0 or NaN when no throughput
  row of its client holds a minus sign in that field. A throughput field that holds the
  error sentinel, is blank or is refused by \<^verbatim>\<open>float\<close> is read as 0.0, and so is a size
  field that holds the sentinel, is blank or does not start with a digit or a point.
\<close>

theorem assembled_fields_not_negative:
  "(read_input f = Inr clients_data \<and> d \<in> set clients_data \<longrightarrow>
      fge (data_gb d) (Fin 0) \<and>
      rate_from 1 f (client d) (avg_read_ops_s d) \<and>
      rate_from 2 f (client d) (avg_write_ops_s d) \<and>
      ((\<forall>line\<in>set f. \<forall>t\<in>set (rate_texts 1 (client d) line). CHR ''-'' \<notin> set t) \<longrightarrow>
         not_negative (avg_read_ops_s d)) \<and>
      ((\<forall>line\<in>set f. \<forall>t\<in>set (rate_texts 2 (client d) line). CHR ''-'' \<notin> set t) \<longrightarrow>
         not_negative (avg_write_ops_s d))) \<and>
   (CHR ''-'' \<notin> set t \<longrightarrow> not_negative (parse_float_maybe t)) \<and>
   (contains ''#div/0'' (lower (strip s)) \<or> lower (strip s) = [] \<or>
      py_float (lower (strip s)) = Inl e \<longrightarrow> parse_float_maybe s = Fin 0) \<and>
   (contains ''#div/0'' (lower (strip s)) \<or> lower (strip s) = [] \<or>
      re_match_number (lower (strip s)) = None \<longrightarrow> parse_data_size s = Inr (Fin 0))"
proof -
  have sign: "not_negative rate"
    if "rate_from i f c rate"
      "\<forall>line\<in>set f. \<forall>t\<in>set (rate_texts i c line). CHR ''-'' \<notin> set t"
    for i c rate
  proof (cases "rate = Fin 0")
    case True
    then show ?thesis by (simp add: not_negative_def)
  next
    case False
    with that(1) obtain line t where "line \<in> set f" "t \<in> set (rate_texts i c line)"
      "rate = parse_float_maybe t"
      by (auto simp: rate_from_def)
    with that(2) show ?thesis by (auto intro: parse_float_maybe_unsigned)
  qed
  have a: "fge (data_gb d) (Fin 0)" if "read_input f = Inr clients_data" "d \<in> set clients_data"
    using read_lines_data_ge_zero[of "[]" f clients_data] that by (simp add: read_input_def)
  have b: "rate_from 1 f (client d) (avg_read_ops_s d) \<and>
           rate_from 2 f (client d) (avg_write_ops_s d)"
    if "read_input f = Inr clients_data" "d \<in> set clients_data"
    using read_lines_rates[of "[]" f clients_data "[]"] that by (simp add: read_input_def)
  have c: "parse_float_maybe s = Fin 0"
    if "contains ''#div/0'' (lower (strip s)) \<or> lower (strip s) = [] \<or>
      py_float (lower (strip s)) = Inl e"
    using that by (auto simp: parse_float_maybe_def Let_def)
  have c': "parse_data_size s = Inr (Fin 0)"
    if "contains ''#div/0'' (lower (strip s)) \<or> lower (strip s) = [] \<or>
      re_match_number (lower (strip s)) = None"
    using that by (auto simp: parse_data_size_def Let_def)
  have u: "CHR ''-'' \<notin> set t \<longrightarrow> not_negative (parse_float_maybe t)"
    by (simp add: parse_float_maybe_unsigned)
  from a b sign[of 1 "client d" "avg_read_ops_s d"] sign[of 2 "client d" "avg_write_ops_s d"]
    c c' u
  show ?thesis by blast
qed

text \<open>
  C4 at a size row of "acme", a throughput row of "acme" and a throughput row of another
  client with a negative rate, and at the field "N/A".
\<close>

theorem assembled_fields_not_negative_witness:
  "read_input [''acme  1.00 TB  1.20 TB  5.00%'', ''Acme   900.0  100.0  90%  10% '',
               ''other  -1  7  50%  50%''] =
     Inr [\<lparr>client = ''acme'', data_gb = Fin (6144 / 5), avg_read_ops_s = Fin 900,
            avg_write_ops_s = Fin 100\<rparr>,
          \<lparr>client = ''other'', data_gb = Fin 0, avg_read_ops_s = Fin (- 1),
            avg_write_ops_s = Fin 7\<rparr>] \<and>
   rate_texts 1 ''acme'' ''acme  1.00 TB  1.20 TB  5.00%'' = [] \<and>
   rate_texts 1 ''acme'' ''Acme   900.0  100.0  90%  10% '' = [''900.0''] \<and>
   rate_texts 1 ''acme'' ''other  -1  7  50%  50%'' = [] \<and>
   rate_texts 2 ''acme'' ''acme  1.00 TB  1.20 TB  5.00%'' = [] \<and>
   rate_texts 2 ''acme'' ''Acme   900.0  100.0  90%  10% '' = [''100.0''] \<and>
   rate_texts 2 ''acme'' ''other  -1  7  50%  50%'' = [] \<and>
   fge (Fin (6144 / 5)) (Fin 0) \<and>
   rate_from 1 [''acme  1.00 TB  1.20 TB  5.00%'', ''Acme   900.0  100.0  90%  10% '',
               ''other  -1  7  50%  50%''] ''acme'' (Fin 900) \<and>
   rate_from 2 [''acme  1.00 TB  1.20 TB  5.00%'', ''Acme   900.0  100.0  90%  10% '',
               ''other  -1  7  50%  50%''] ''acme'' (Fin 100) \<and>
   not_negative (Fin 900) \<and> not_negative (Fin 100) \<and>
   CHR ''-'' \<notin> set ''900.0'' \<and> not_negative (parse_float_maybe ''900.0'') \<and>
   py_float ''n/a'' = Inl ValueError \<and> re_match_number ''n/a'' = None \<and>
   parse_float_maybe ''N/A'' = Fin 0 \<and> parse_data_size ''N/A'' = Inr (Fin 0)"
proof -
  let ?f = "[''acme  1.00 TB  1.20 TB  5.00%'', ''Acme   900.0  100.0  90%  10% '',
             ''other  -1  7  50%  50%'']"
  let ?d = "\<lparr>client = ''acme'', data_gb = Fin (6144 / 5), avg_read_ops_s = Fin 900,
            avg_write_ops_s = Fin 100\<rparr>"
  let ?o = "\<lparr>client = ''other'', data_gb = Fin 0, avg_read_ops_s = Fin (- 1),
            avg_write_ops_s = Fin 7\<rparr>"
  have r: "read_input ?f = Inr [?d, ?o]"
    by (simp add: read_eval parse_eval)
  have t1: "rate_texts 1 ''acme'' ''acme  1.00 TB  1.20 TB  5.00%'' = []"
    "rate_texts 2 ''acme'' ''acme  1.00 TB  1.20 TB  5.00%'' = []"
    by (simp_all add: rate_texts_def split_columns_def strip_def isspace_def)
  have t2: "rate_texts 1 ''acme'' ''Acme   900.0  100.0  90%  10% '' = [''900.0'']"
    "rate_texts 2 ''acme'' ''Acme   900.0  100.0  90%  10% '' = [''100.0'']"
    by (simp_all add: rate_texts_def split_columns_def strip_def isspace_def lower_def
        lower_char_def char_of_def bit_0 Let_def)
  have t3: "rate_texts 1 ''acme'' ''other  -1  7  50%  50%'' = []"
    "rate_texts 2 ''acme'' ''other  -1  7  50%  50%'' = []"
    by (simp_all add: rate_texts_def split_columns_def strip_def isspace_def lower_def
        lower_char_def char_of_def bit_0 Let_def)
  have p: "py_float ''n/a'' = Inl ValueError" "lower (strip ''N/A'') = ''n/a''"
    "re_match_number ''n/a'' = None"
    by (simp_all add: parse_eval)
  have h1: "\<forall>line\<in>set ?f. \<forall>t\<in>set (rate_texts 1 ''acme'' line). CHR ''-'' \<notin> set t"
    by (simp add: t1 t2 t3 del: One_nat_def)
  have h2: "\<forall>line\<in>set ?f. \<forall>t\<in>set (rate_texts 2 ''acme'' line). CHR ''-'' \<notin> set t"
    by (simp add: t1 t2 t3)
  have m: "CHR ''-'' \<notin> set ''900.0''" by simp
  from assembled_fields_not_negative[of ?f "[?d, ?o]" ?d "''900.0''" "''N/A''" ValueError]
    r h1 h2 p m
  have "fge (Fin (6144 / 5)) (Fin 0) \<and> rate_from 1 ?f ''acme'' (Fin 900) \<and>
    rate_from 2 ?f ''acme'' (Fin 100) \<and> not_negative (Fin 900) \<and> not_negative (Fin 100) \<and>
    not_negative (parse_float_maybe ''900.0'') \<and>
    parse_float_maybe ''N/A'' = Fin 0 \<and> parse_data_size ''N/A'' = Inr (Fin 0)"
    by simp
  with r t1 t2 t3 p m show ?thesis by simp
qed

text \<open>
  Claim C4 as stated fails: the fields "-5" and "nan" of a throughput row are stored as
  -5.0 and NaN, neither of which is \<^verbatim>\<open>>= 0\<close>.
\<close>

theorem negative_rate_counterexample:
  "read_input [''acme  -5  nan  50%  50%''] =
     Inr [\<lparr>client = ''acme'', data_gb = Fin 0, avg_read_ops_s = Fin (- 5),
            avg_write_ops_s = NaN\<rparr>] \<and>
   \<not> fge (Fin (- 5)) (Fin 0) \<and> \<not> fge NaN (Fin 0)"
  by (simp add: read_eval parse_eval)

text \<open>
  Claim C5, as amended. "1 TB" gives 1024.0, "512 MB" gives 0.5, "3.5 GB" gives 3.5,
  "#DIV/0!" and the empty string give 0.0. A text whose trimmed, lower-cased form holds
  the error sentinel, starts with "0.00", is empty or has no leading numeric literal gives
  0.0 whatever unit it names. Otherwise, when \<^verbatim>\<open>float\<close> reads the leading literal \<open>g\<close> as
  \<open>val\<close>, that value is at least 0 and the result is \<open>val * 1024.0\<close> when the text contains
  "tb", else \<open>val\<close> when it contains "gb", else \<open>val / 1024.0\<close> when it contains "mb", else
  \<open>val\<close>.
\<close>

theorem parse_data_size_units:
  "parse_data_size ''1 TB'' = Inr (Fin 1024) \<and>
   parse_data_size ''512 MB'' = Inr (Fin 0.5) \<and>
   parse_data_size ''3.5 GB'' = Inr (Fin 3.5) \<and>
   parse_data_size ''#DIV/0!'' = Inr (Fin 0) \<and>
   parse_data_size '''' = Inr (Fin 0) \<and>
   (contains ''#div/0'' (lower (strip size_str)) \<or>
    startswith (lower (strip size_str)) ''0.00'' \<or> lower (strip size_str) = [] \<or>
    re_match_number (lower (strip size_str)) = None \<longrightarrow>
      parse_data_size size_str = Inr (Fin 0)) \<and>
   (\<not> contains ''#div/0'' (lower (strip size_str)) \<and>
    \<not> startswith (lower (strip size_str)) ''0.00'' \<and>
    re_match_number (lower (strip size_str)) = Some g \<and> py_float g = Inr val \<longrightarrow>
      fge val (Fin 0) \<and>
      parse_data_size size_str =
        (if contains ''tb'' (lower (strip size_str)) then Inr (fmul val (Fin 1024))
         else if contains ''gb'' (lower (strip size_str)) then Inr val
         else if contains ''mb'' (lower (strip size_str)) then fdiv val (Fin 1024)
         else Inr val))"
proof -
  have e1: "parse_data_size ''1 TB'' = Inr (Fin 1024)" by (simp add: parse_eval)
  have e2: "parse_data_size ''512 MB'' = Inr (Fin 0.5)" by (simp add: parse_eval)
  have e3: "parse_data_size ''3.5 GB'' = Inr (Fin 3.5)" by (simp add: parse_eval)
  have e4: "parse_data_size ''#DIV/0!'' = Inr (Fin 0)" by (simp add: parse_eval)
  have e5: "parse_data_size '''' = Inr (Fin 0)" by (simp add: parse_eval)
  have z: "parse_data_size size_str = Inr (Fin 0)"
    if "contains ''#div/0'' (lower (strip size_str)) \<or>
      startswith (lower (strip size_str)) ''0.00'' \<or> lower (strip size_str) = [] \<or>
      re_match_number (lower (strip size_str)) = None"
    using that by (auto simp: parse_data_size_def Let_def)
  have g: "fge val (Fin 0) \<and>
      parse_data_size size_str =
        (if contains ''tb'' (lower (strip size_str)) then Inr (fmul val (Fin 1024))
         else if contains ''gb'' (lower (strip size_str)) then Inr val
         else if contains ''mb'' (lower (strip size_str)) then fdiv val (Fin 1024)
         else Inr val)"
    if h: "\<not> contains ''#div/0'' (lower (strip size_str))"
      "\<not> startswith (lower (strip size_str)) ''0.00''"
      "re_match_number (lower (strip size_str)) = Some g" "py_float g = Inr val"
  proof -
    define s where "s = lower (strip size_str)"
    from h(3) have ne: "s \<noteq> []" by (auto simp: s_def re_match_number_def)
    from h(2) have nz: "s \<noteq> ''0.00 mb''" by (auto simp: s_def)
    have "fge val (Fin 0)"
      using re_match_number_chars[OF h(3)] h(4) by (rule py_float_digits)
    moreover have "parse_data_size size_str =
        (if contains ''tb'' s then Inr (fmul val (Fin 1024))
         else if contains ''gb'' s then Inr val
         else if contains ''mb'' s then fdiv val (Fin 1024)
         else Inr val)"
      using h ne nz by (simp add: parse_data_size_def s_def[symmetric])
    ultimately show ?thesis by (simp add: s_def)
  qed
  from e1 e2 e3 e4 e5 z g show ?thesis by blast
qed

text \<open>C5 at "2.5 TB", which gives 2560 gigabytes, and at "n/a", which gives 0.0.\<close>

theorem parse_data_size_units_witness:
  "\<not> contains ''#div/0'' (lower (strip ''2.5 TB'')) \<and>
   \<not> startswith (lower (strip ''2.5 TB'')) ''0.00'' \<and>
   re_match_number (lower (strip ''2.5 TB'')) = Some ''2.5'' \<and>
   py_float ''2.5'' = Inr (Fin 2.5) \<and>
   contains ''tb'' (lower (strip ''2.5 TB'')) \<and>
   fmul (Fin 2.5) (Fin 1024) = Fin 2560 \<and>
   parse_data_size ''2.5 TB'' = Inr (Fin 2560) \<and>
   re_match_number (lower (strip ''n/a'')) = None \<and>
   parse_data_size ''n/a'' = Inr (Fin 0)"
proof -
  have h: "\<not> contains ''#div/0'' (lower (strip ''2.5 TB'')) \<and>
   \<not> startswith (lower (strip ''2.5 TB'')) ''0.00'' \<and>
   re_match_number (lower (strip ''2.5 TB'')) = Some ''2.5'' \<and>
   py_float ''2.5'' = Inr (Fin 2.5)"
    by (simp add: parse_eval)
  have c: "contains ''tb'' (lower (strip ''2.5 TB''))" by (simp add: parse_eval)
  have m: "fmul (Fin 2.5) (Fin 1024) = Fin 2560"
    by (simp add: to_float_moderate)
  have n: "re_match_number (lower (strip ''n/a'')) = None" by (simp add: parse_eval)
  from parse_data_size_units[of "''2.5 TB''" "''2.5''" "Fin 2.5"] h
  have "parse_data_size ''2.5 TB'' = Inr (fmul (Fin 2.5) (Fin 1024))"
    unfolding if_P[OF c] by blast
  moreover from parse_data_size_units[of "''n/a''"] n
  have "parse_data_size ''n/a'' = Inr (Fin 0)" by blast
  ultimately show ?thesis using h c m n by simp
qed

text \<open>
  Claim C5 as stated fails: "0.005 TB" names terabytes and gives 0.0, not 5.12; and
  "2048 MB (2 GB)" names megabytes and gives 2048.0, not 2.0, since "gb" is looked for
  before "mb".
\<close>

theorem unit_token_counterexample:
  "contains ''tb'' (lower (strip ''0.005 TB'')) \<and>
   parse_data_size ''0.005 TB'' = Inr (Fin 0) \<and>
   Fin 0 \<noteq> Fin (0.005 * 1024) \<and>
   contains ''mb'' (lower (strip ''2048 MB (2 GB)'')) \<and>
   parse_data_size ''2048 MB (2 GB)'' = Inr (Fin 2048) \<and>
   Fin 2048 \<noteq> Fin (2048 / 1024)"
  by (simp add: parse_eval)

text \<open>
  Claim C6. The classification compares the size with 1024 and the rate with 4000, each with
  \<^verbatim>\<open>>=\<close> and independently: both give "Data+IOPS Intensive", the size alone
  "Data-Intensive", the rate alone "IOPS-Intensive", neither "Moderate"; with the three
  boundary cases of the specification.
\<close>

theorem classify_thresholds:
  "(fge gb (Fin 1024) \<and> fge iops (Fin 4000) \<longrightarrow> classify gb iops = ''Data+IOPS Intensive'') \<and>
   (fge gb (Fin 1024) \<and> \<not> fge iops (Fin 4000) \<longrightarrow> classify gb iops = ''Data-Intensive'') \<and>
   (\<not> fge gb (Fin 1024) \<and> fge iops (Fin 4000) \<longrightarrow> classify gb iops = ''IOPS-Intensive'') \<and>
   (\<not> fge gb (Fin 1024) \<and> \<not> fge iops (Fin 4000) \<longrightarrow> classify gb iops = ''Moderate'') \<and>
   classify (Fin 1024.0) (Fin 0.0) = ''Data-Intensive'' \<and>
   classify (Fin 1023.99) (Fin 3999.99) = ''Moderate'' \<and>
   classify (Fin 1024.0) (Fin 4000.0) = ''Data+IOPS Intensive''"
  by (simp add: classify_def DATA_INTENSIVE_THRESHOLD_def IOPS_INTENSIVE_THRESHOLD_def)

text \<open>C6 at one input for each of the four cases.\<close>

theorem classify_thresholds_witness:
  "fge (Fin 2048) (Fin 1024) \<and> fge (Fin 5000) (Fin 4000) \<and> \<not> fge (Fin 10) (Fin 1024) \<and>
   \<not> fge NaN (Fin 4000) \<and>
   classify (Fin 2048) (Fin 5000) = ''Data+IOPS Intensive'' \<and>
   classify (Fin 2048) NaN = ''Data-Intensive'' \<and>
   classify (Fin 10) (Fin 5000) = ''IOPS-Intensive'' \<and>
   classify (Fin 10) NaN = ''Moderate''"
  using classify_thresholds[of "Fin 2048" "Fin 5000"] classify_thresholds[of "Fin 2048" NaN]
    classify_thresholds[of "Fin 10" "Fin 5000"] classify_thresholds[of "Fin 10" NaN]
  by simp

text \<open>
  Claim C7. \<open>recommend_cluster_tier\<close> is a cascade in which the first matching rule wins:
  size \<open>\<ge> 5000\<close> or rate \<open>\<ge> 15000\<close> gives "M200", else size \<open>\<ge> 2000\<close> or rate \<open>\<ge> 8000\<close>
  gives "M100", else size \<open>\<ge> 500\<close> or rate \<open>\<ge> 2000\<close> gives "M50", else "M30"; a size of 100
  with a rate of 16000 gives "M200".
\<close>

theorem recommend_cluster_tier_cascade:
  "(fge gb (Fin 5000) \<or> fge iops (Fin 15000) \<longrightarrow> recommend_cluster_tier gb iops = ''M200'') \<and>
   (\<not> (fge gb (Fin 5000) \<or> fge iops (Fin 15000)) \<and> (fge gb (Fin 2000) \<or> fge iops (Fin 8000)) \<longrightarrow>
      recommend_cluster_tier gb iops = ''M100'') \<and>
   (\<not> (fge gb (Fin 5000) \<or> fge iops (Fin 15000)) \<and> \<not> (fge gb (Fin 2000) \<or> fge iops (Fin 8000)) \<and>
    (fge gb (Fin 500) \<or> fge iops (Fin 2000)) \<longrightarrow>
      recommend_cluster_tier gb iops = ''M50'') \<and>
   (\<not> (fge gb (Fin 5000) \<or> fge iops (Fin 15000)) \<and> \<not> (fge gb (Fin 2000) \<or> fge iops (Fin 8000)) \<and>
    \<not> (fge gb (Fin 500) \<or> fge iops (Fin 2000)) \<longrightarrow>
      recommend_cluster_tier gb iops = ''M30'') \<and>
   recommend_cluster_tier (Fin 100) (Fin 16000) = ''M200''"
  by (simp add: recommend_cluster_tier_def)

text \<open>C7 at one input for each of the four tiers.\<close>

theorem recommend_cluster_tier_cascade_witness:
  "fge (Fin 16000) (Fin 15000) \<and> \<not> fge (Fin 100) (Fin 5000) \<and>
   recommend_cluster_tier (Fin 100) (Fin 16000) = ''M200'' \<and>
   recommend_cluster_tier (Fin 2000) (Fin 0) = ''M100'' \<and>
   recommend_cluster_tier (Fin 1228.8) (Fin 1000) = ''M50'' \<and>
   recommend_cluster_tier (Fin 499.99) (Fin 1999.99) = ''M30''"
  using recommend_cluster_tier_cascade[of "Fin 100" "Fin 16000"]
    recommend_cluster_tier_cascade[of "Fin 2000" "Fin 0"]
    recommend_cluster_tier_cascade[of "Fin 1228.8" "Fin 1000"]
    recommend_cluster_tier_cascade[of "Fin 499.99" "Fin 1999.99"]
  by simp

text \<open>
  Claim C8, as amended. For every record set and either policy the output loop raises
  nothing: a total that is 0 is replaced by \<^verbatim>\<open>1e-9\<close>, so neither divisor is 0. When every
  client has \<open>data_gb == 0\<close>, every \<open>data_share\<close> is exactly 0.0, finite and not NaN; likewise
  for the rates and \<open>iops_share\<close>.
\<close>

theorem zero_totals_give_zero_shares:
  "\<exists>ss. cost_shares pure cd = Inr ss \<and> length ss = length cd \<and>
     total_data_gb cd \<noteq> Fin 0 \<and> total_iops cd \<noteq> Fin 0 \<and>
     (fsum (map data_gb cd) = Fin 0 \<longrightarrow> total_data_gb cd = Fin (1 / 10 ^ 9)) \<and>
     (fsum (map client_iops cd) = Fin 0 \<longrightarrow> total_iops cd = Fin (1 / 10 ^ 9)) \<and>
     ((\<forall>d\<in>set cd. data_gb d = Fin 0) \<longrightarrow>
        total_data_gb cd = Fin (1 / 10 ^ 9) \<and> (\<forall>s\<in>set ss. data_share s = Fin 0)) \<and>
     ((\<forall>d\<in>set cd. client_iops d = Fin 0) \<longrightarrow>
        total_iops cd = Fin (1 / 10 ^ 9) \<and> (\<forall>s\<in>set ss. iops_share s = Fin 0))"
proof -
  from cost_shares_defined[of pure cd] obtain ss where
    ss: "cost_shares pure cd = Inr ss"
      "list_all2 (share_of pure (total_data_gb cd) (total_iops cd)) cd ss"
    by blast
  have d: "total_data_gb cd = Fin (1 / 10 ^ 9) \<and> (\<forall>s\<in>set ss. data_share s = Fin 0)"
    if z: "\<forall>d\<in>set cd. data_gb d = Fin 0"
  proof -
    have t: "total_data_gb cd = Fin (1 / 10 ^ 9)"
      by (simp add: total_data_gb_def fsum_zeros[OF z])
    have "map data_share ss = map (\<lambda>d. Fin 0) cd"
      using ss(2)
    proof (rule list_all2_map_eq)
      fix x y
      assume "x \<in> set cd" and "share_of pure (total_data_gb cd) (total_iops cd) x y"
      with z share_of_data_share[of pure "total_data_gb cd" "total_iops cd" x y]
      show "data_share y = Fin 0" by (simp add: t to_float_zero)
    qed
    then have "set (map data_share ss) \<subseteq> {Fin 0}" by auto
    with t show ?thesis by auto
  qed
  have i: "total_iops cd = Fin (1 / 10 ^ 9) \<and> (\<forall>s\<in>set ss. iops_share s = Fin 0)"
    if z: "\<forall>d\<in>set cd. client_iops d = Fin 0"
  proof -
    have t: "total_iops cd = Fin (1 / 10 ^ 9)"
      by (simp add: total_iops_def fsum_zeros[OF z])
    have "map iops_share ss = map (\<lambda>d. Fin 0) cd"
      using ss(2)
    proof (rule list_all2_map_eq)
      fix x y
      assume "x \<in> set cd" and "share_of pure (total_data_gb cd) (total_iops cd) x y"
      with z share_of_iops_share[of pure "total_data_gb cd" "total_iops cd" x y]
      show "iops_share y = Fin 0" by (simp add: t to_float_zero)
    qed
    then have "set (map iops_share ss) \<subseteq> {Fin 0}" by auto
    with t show ?thesis by auto
  qed
  have g: "fsum (map data_gb cd) = Fin 0 \<longrightarrow> total_data_gb cd = Fin (1 / 10 ^ 9)"
    "fsum (map client_iops cd) = Fin 0 \<longrightarrow> total_iops cd = Fin (1 / 10 ^ 9)"
    by (simp_all add: total_data_gb_def total_iops_def)
  from ss list_all2_lengthD[OF ss(2)] d i g total_data_gb_nonzero[of cd] total_iops_nonzero[of cd]
  show ?thesis by auto
qed

text \<open>C8 at two clients without data, one of them with a NaN rate.\<close>

theorem zero_totals_give_zero_shares_witness:
  "list_all (\<lambda>d. data_gb d = Fin 0)
     [\<lparr>client = ''a'', data_gb = Fin 0, avg_read_ops_s = Fin 10, avg_write_ops_s = NaN\<rparr>,
      \<lparr>client = ''b'', data_gb = Fin 0, avg_read_ops_s = Fin 0, avg_write_ops_s = Fin 0\<rparr>] \<and>
   cost_shares False
     [\<lparr>client = ''a'', data_gb = Fin 0, avg_read_ops_s = Fin 10, avg_write_ops_s = NaN\<rparr>,
      \<lparr>client = ''b'', data_gb = Fin 0, avg_read_ops_s = Fin 0, avg_write_ops_s = Fin 0\<rparr>]
     = Inr [\<lparr>share_client = ''a'', data_share = Fin 0, iops_share = NaN,
              weighted_share = NaN, monthly_cost = NaN\<rparr>,
            \<lparr>share_client = ''b'', data_share = Fin 0, iops_share = NaN,
              weighted_share = NaN, monthly_cost = NaN\<rparr>] \<and>
   total_data_gb
     [\<lparr>client = ''a'', data_gb = Fin 0, avg_read_ops_s = Fin 10, avg_write_ops_s = NaN\<rparr>,
      \<lparr>client = ''b'', data_gb = Fin 0, avg_read_ops_s = Fin 0, avg_write_ops_s = Fin 0\<rparr>]
     = Fin (1 / 10 ^ 9) \<and>
   list_all (\<lambda>s. data_share s = Fin 0)
     [\<lparr>share_client = ''a'', data_share = Fin 0, iops_share = NaN,
              weighted_share = NaN, monthly_cost = NaN\<rparr>,
            \<lparr>share_client = ''b'', data_share = Fin 0, iops_share = NaN,
              weighted_share = NaN, monthly_cost = NaN\<rparr>]"
proof -
  let ?cd = "[\<lparr>client = ''a'', data_gb = Fin 0, avg_read_ops_s = Fin 10, avg_write_ops_s = NaN\<rparr>,
      \<lparr>client = ''b'', data_gb = Fin 0, avg_read_ops_s = Fin 0, avg_write_ops_s = Fin 0\<rparr>]"
  let ?ss = "[\<lparr>share_client = ''a'', data_share = Fin 0, iops_share = NaN,
              weighted_share = NaN, monthly_cost = NaN\<rparr>,
            \<lparr>share_client = ''b'', data_share = Fin 0, iops_share = NaN,
              weighted_share = NaN, monthly_cost = NaN\<rparr>]"
  have h: "list_all (\<lambda>d. data_gb d = Fin 0) ?cd" by simp
  then have z: "\<forall>d\<in>set ?cd. data_gb d = Fin 0" by simp
  have e: "cost_shares False ?cd = Inr ?ss" by (simp add: share_eval Let_def)
  from zero_totals_give_zero_shares[of False ?cd] z obtain ss where
    "cost_shares False ?cd = Inr ss" "total_data_gb ?cd = Fin (1 / 10 ^ 9)"
    "\<forall>s\<in>set ss. data_share s = Fin 0"
    by blast
  with e have "total_data_gb ?cd = Fin (1 / 10 ^ 9)" "list_all (\<lambda>s. data_share s = Fin 0) ?ss"
    by (simp_all add: list_all_iff)
  with h e show ?thesis by blast
qed

text \<open>
  Claim C8 as stated fails: with two clients without data every \<open>data_share\<close> is 0, at
  distance 1/2 from the even split 1/2.
\<close>

theorem zero_data_share_counterexample:
  "cost_shares True
     [\<lparr>client = ''a'', data_gb = Fin 0, avg_read_ops_s = Fin 10, avg_write_ops_s = Fin 5\<rparr>,
      \<lparr>client = ''b'', data_gb = Fin 0, avg_read_ops_s = Fin 0, avg_write_ops_s = Fin 0\<rparr>]
     = Inr [\<lparr>share_client = ''a'', data_share = Fin 0, iops_share = Fin 1,
              weighted_share = Fin 0, monthly_cost = Fin 0\<rparr>,
            \<lparr>share_client = ''b'', data_share = Fin 0, iops_share = Fin 0,
              weighted_share = Fin 0, monthly_cost = Fin 0\<rparr>] \<and>
   \<bar>0 - 1 / 2\<bar> = (1 / 2 :: real)"
  by (simp add: share_eval Let_def)

text \<open>
  Claim C9. Whenever the trimmed, lower-cased text starts with "0.00", \<open>parse_data_size\<close>
  returns 0.0 whatever follows; "0.005 TB" gives 0.0, although its literal 0.005 times 1024
  is 5.12.
\<close>

theorem parse_data_size_zero_prefix:
  "(startswith (lower (strip size_str)) ''0.00'' \<longrightarrow> parse_data_size size_str = Inr (Fin 0)) \<and>
   parse_data_size ''0.005 TB'' = Inr (Fin 0) \<and>
   py_float ''0.005'' = Inr (Fin 0.005) \<and>
   fmul (Fin 0.005) (Fin 1024) = Fin 5.12"
proof -
  have "parse_data_size ''0.005 TB'' = Inr (Fin 0)" by (simp add: parse_eval)
  moreover have "py_float ''0.005'' = Inr (Fin 0.005)" by (simp add: parse_eval)
  ultimately show ?thesis by (simp add: parse_data_size_def to_float_def float_overflow_def)
qed

text \<open>C9 at " 0.009 GB".\<close>

theorem parse_data_size_zero_prefix_witness:
  "startswith (lower (strip '' 0.009 GB'')) ''0.00'' \<and> parse_data_size '' 0.009 GB'' = Inr (Fin 0)"
proof -
  have h: "startswith (lower (strip '' 0.009 GB'')) ''0.00''" by (simp add: parse_eval)
  with parse_data_size_zero_prefix[of "'' 0.009 GB''"] show ?thesis by blast
qed

text \<open>
  Claim C10. \<open>recommend_cluster_tier\<close> returns one of "M200", "M100", "M50", "M30"; these are
  the keys of \<open>CLUSTER_TIERS\<close>, so the lookup of the monthly cost never takes its default,
  and the last cell of every row written, the column "Estimated_Monthly_Cost", is one of
  the four costs of the table.
\<close>

theorem tier_cost_from_table:
  "recommend_cluster_tier gb iops \<in> {''M200'', ''M100'', ''M50'', ''M30''} \<and>
   {''M200'', ''M100'', ''M50'', ''M30''} = fst ` set CLUSTER_TIERS \<and>
   map_of CLUSTER_TIERS (recommend_cluster_tier gb iops) \<noteq> None \<and>
   tier_monthly_cost (recommend_cluster_tier gb iops) \<in> snd ` set CLUSTER_TIERS \<and>
   length (estimate_row d) = length estimate_header \<and>
   estimate_header ! 7 = Str ''Estimated_Monthly_Cost'' \<and>
   estimate_row d ! 7 \<in> {Num (Fin 1500), Num (Fin 3000), Num (Fin 5000), Num (Fin 8000)}"
proof -
  have t: "recommend_cluster_tier gb iops \<in> {''M200'', ''M100'', ''M50'', ''M30''}" for gb iops
    by (simp add: recommend_cluster_tier_def)
  have k: "{''M200'', ''M100'', ''M50'', ''M30''} = fst ` set CLUSTER_TIERS"
    by (auto simp: CLUSTER_TIERS_def)
  have c: "tier_monthly_cost (recommend_cluster_tier gb iops) \<in> {Fin 1500, Fin 3000, Fin 5000, Fin 8000}
      \<and> map_of CLUSTER_TIERS (recommend_cluster_tier gb iops) \<noteq> None" for gb iops
    by (simp add: recommend_cluster_tier_def tier_monthly_cost_def CLUSTER_TIERS_def)
  have s: "snd ` set CLUSTER_TIERS = {Fin 1500, Fin 3000, Fin 5000, Fin 8000}"
    by (auto simp: CLUSTER_TIERS_def)
  have r: "py_round v 2 = v" if "v \<in> {Fin 1500, Fin 3000, Fin 5000, Fin 8000}" for v
    using that by (auto simp: round_half_even_def)
  have row: "estimate_row d ! 7 =
      Num (py_round (tier_monthly_cost (recommend_cluster_tier (data_gb d)
        (fadd (avg_read_ops_s d) (avg_write_ops_s d)))) 2)"
    by (simp add: estimate_row_def Let_def)
  have "estimate_row d ! 7 \<in> {Num (Fin 1500), Num (Fin 3000), Num (Fin 5000), Num (Fin 8000)}"
    unfolding row using r[OF c[THEN conjunct1]] c[THEN conjunct1] by auto
  moreover have "length (estimate_row d) = length estimate_header \<and>
     estimate_header ! 7 = Str ''Estimated_Monthly_Cost''"
    by (simp add: estimate_row_def estimate_header_def Let_def)
  ultimately show ?thesis using t k c s by auto
qed

text \<open>C10 at a client of 1228.8 GB with 1000 operations per second.\<close>

theorem tier_cost_from_table_witness:
  "estimate_row \<lparr>client = ''acme'', data_gb = Fin 1228.8, avg_read_ops_s = Fin 900,
     avg_write_ops_s = Fin 100\<rparr> ! 7 = Num (Fin 3000) \<and>
   recommend_cluster_tier (Fin 1228.8) (Fin 1000) = ''M50'' \<and>
   map_of CLUSTER_TIERS ''M50'' = Some (Fin 3000)"
proof -
  have t: "recommend_cluster_tier (Fin 1228.8) (Fin 1000) = ''M50''"
    by (simp add: recommend_cluster_tier_def)
  have m: "map_of CLUSTER_TIERS ''M50'' = Some (Fin 3000)"
    by (simp add: CLUSTER_TIERS_def)
  have "estimate_row \<lparr>client = ''acme'', data_gb = Fin 1228.8, avg_read_ops_s = Fin 900,
     avg_write_ops_s = Fin 100\<rparr> ! 7 = Num (py_round (Fin 3000) 2)"
    using t m
    by (simp add: estimate_row_def tier_monthly_cost_def Let_def to_float_def float_overflow_def)
  with tier_cost_from_table[of "Fin 1228.8" "Fin 1000" "\<lparr>client = ''acme'', data_gb = Fin 1228.8,
     avg_read_ops_s = Fin 900, avg_write_ops_s = Fin 100\<rparr>"] t m
  show ?thesis by (simp add: round_half_even_def)
qed

end
